theory Spec2Isabelle
  imports Main "HOL-Library.Multiset"
begin

section \<open>Python primitives used by the pipeline\<close>

text \<open>
  Python strings are modelled as \<^typ>\<open>string\<close>: a character is a code point below 256.
  On that range the regular-expression class \<^verbatim>\<open>\d\<close> is exactly the ASCII digits, and
  \<^verbatim>\<open>str.strip()\<close> removes the code points 9-13, 28-32, 133 and 160.
\<close>

definition nl :: string where
  "nl = [CHR 0x0A]"

definition digit_char :: "nat \<Rightarrow> char" where
  "digit_char d = char_of (48 + d)"

text \<open>\<^verbatim>\<open>str(n)\<close> and \<^verbatim>\<open>f"{n}"\<close> for a non-negative integer: decimal, no leading zero.\<close>

fun str_nat :: "nat \<Rightarrow> string" where
  "str_nat n = (if n < 10 then [digit_char n] else str_nat (n div 10) @ [digit_char (n mod 10)])"

declare str_nat.simps [simp del]

definition is_digit :: "char \<Rightarrow> bool" where
  "is_digit c = (48 \<le> (of_char c :: nat) \<and> (of_char c :: nat) \<le> 57)"

definition digit_val :: "char \<Rightarrow> nat" where
  "digit_val c = (of_char c :: nat) - 48"

text \<open>\<^verbatim>\<open>int(s)\<close> on a non-empty run of digits.\<close>

definition int_of_digits :: "string \<Rightarrow> nat" where
  "int_of_digits ds = foldl (\<lambda>a c. 10 * a + digit_val c) 0 ds"

definition py_isspace :: "char \<Rightarrow> bool" where
  "py_isspace c = (let n = (of_char c :: nat) in
     (9 \<le> n \<and> n \<le> 13) \<or> (28 \<le> n \<and> n \<le> 32) \<or> n = 133 \<or> n = 160)"

text \<open>\<^verbatim>\<open>s.strip()\<close>\<close>

definition strip :: "string \<Rightarrow> string" where
  "strip s = rev (dropWhile py_isspace (rev (dropWhile py_isspace s)))"

definition startswith :: "string \<Rightarrow> string \<Rightarrow> bool" where
  "startswith s p = (take (length p) s = p)"

definition endswith :: "string \<Rightarrow> string \<Rightarrow> bool" where
  "endswith s p = (length p \<le> length s \<and> drop (length s - length p) s = p)"

text \<open>\<^verbatim>\<open>os.path.join(a, b)\<close> on a POSIX system.\<close>

definition path_join :: "string \<Rightarrow> string \<Rightarrow> string" where
  "path_join a b =
     (if startswith b ''/'' then b
      else if a = [] \<or> endswith a ''/'' then a @ b
      else a @ ''/'' @ b)"

text \<open>
  \<^verbatim>\<open>text.find(sub)\<close>: the lowest index at which \<open>sub\<close> occurs in \<open>text\<close>, and -1 when it
  does not occur.
\<close>

fun find_from :: "nat \<Rightarrow> string \<Rightarrow> string \<Rightarrow> int" where
  "find_from i sub [] = (if sub = [] then int i else - 1)"
| "find_from i sub (c # cs) =
     (if take (length sub) (c # cs) = sub then int i else find_from (i + 1) sub cs)"

definition py_find :: "string \<Rightarrow> string \<Rightarrow> int" where
  "py_find text sub = find_from 0 sub text"


text \<open>
  \<^verbatim>\<open>re.findall(r'\d+', s)\<close>: the maximal runs of digits, from left to right.
\<close>

function findall_digits :: "string \<Rightarrow> string list" where
  "findall_digits [] = []"
| "findall_digits (c # cs) =
     (if is_digit c
      then takeWhile is_digit (c # cs) # findall_digits (dropWhile is_digit (c # cs))
      else findall_digits cs)"
  by pat_completeness auto
termination
  by (relation "measure length") (auto simp: less_Suc_eq_le length_dropWhile_le)

text \<open>
  \<^verbatim>\<open>re.search(r'chapter_(\d+)\.txt', s)\<close>, returning group 1 of the leftmost match.
  At a given start the greedy \<^verbatim>\<open>\d+\<close> takes the maximal run of digits; giving a digit back
  cannot help, since the next pattern character is a literal dot.
\<close>

definition match_chapter_txt :: "string \<Rightarrow> string option" where
  "match_chapter_txt s =
     (if take 8 s = ''chapter_''
      then (let rest = drop 8 s;
                ds = takeWhile is_digit rest;
                after = dropWhile is_digit rest
            in if ds \<noteq> [] \<and> take 4 after = ''.txt'' then Some ds else None)
      else None)"

fun search_chapter_txt :: "string \<Rightarrow> string option" where
  "search_chapter_txt [] = None"
| "search_chapter_txt (c # cs) =
     (case match_chapter_txt (c # cs) of
        Some g \<Rightarrow> Some g
      | None \<Rightarrow> search_chapter_txt cs)"


section \<open>Chapter segmentation (\<^verbatim>\<open>save_chapters_as_text\<close>, gradio\_launch.py)\<close>

text \<open>
  An item of the book as the loop sees it: whether \<^verbatim>\<open>item.get_type()\<close> is
  \<^verbatim>\<open>ITEM_DOCUMENT\<close>, and the text that \<^verbatim>\<open>BeautifulSoup(...).get_text()\<close> extracts from it.
\<close>

record item =
  item_is_document :: bool
  item_text :: string

text \<open>
  The loop's variables, the files of the working directory (a map from path to content)
  and the lines printed.
\<close>

record seg_state =
  previous_filename :: string
  chapter_counter :: nat
  seg_files :: "string \<Rightarrow> string option"
  seg_printed :: "string list"

definition directory :: string where
  "directory = path_join (path_join ''.'' ''Working_files'') ''temp_ebook''"

definition chapter_name :: "nat \<Rightarrow> string" where
  "chapter_name n = ''chapter_'' @ str_nat n @ ''.txt''"

definition chapter_path :: "nat \<Rightarrow> string" where
  "chapter_path n = path_join directory (chapter_name n)"

text \<open>\<^verbatim>\<open>open(path, 'a').write(s)\<close>: appends, creating the file when it is missing.\<close>

definition file_append :: "(string \<Rightarrow> string option) \<Rightarrow> string \<Rightarrow> string \<Rightarrow> (string \<Rightarrow> string option)" where
  "file_append fs path s = fs(path \<mapsto> (case fs path of None \<Rightarrow> s | Some old \<Rightarrow> old @ s))"

definition save_item :: "item \<Rightarrow> seg_state \<Rightarrow> seg_state" where
  "save_item it st =
     (if item_is_document it then
        (let text = item_text it in
         if strip text \<noteq> [] then
           (if length text < 2300 \<and> previous_filename st \<noteq> [] then
              st\<lparr>seg_files := file_append (seg_files st) (previous_filename st) (nl @ text)\<rparr>
            else
              (let fname = chapter_path (chapter_counter st) in
               st\<lparr>previous_filename := fname,
                  chapter_counter := chapter_counter st + 1,
                  seg_files := (seg_files st)(fname \<mapsto> text),
                  seg_printed := seg_printed st @ [''Saved chapter: '' @ fname]\<rparr>))
         else st)
      else st)"

definition seg_init :: "(string \<Rightarrow> string option) \<Rightarrow> seg_state" where
  "seg_init fs = \<lparr>previous_filename = [], chapter_counter = 0, seg_files = fs, seg_printed = []\<rparr>"

definition save_chapters_as_text :: "(string \<Rightarrow> string option) \<Rightarrow> item list \<Rightarrow> seg_state" where
  "save_chapters_as_text fs items = fold save_item items (seg_init fs)"

text \<open>
  The vocabulary of the specification: an item counts when it is a document whose text
  has a character left after stripping; it is short below 2300 characters.
\<close>

definition counted :: "item \<Rightarrow> bool" where
  "counted it = (item_is_document it \<and> strip (item_text it) \<noteq> [])"

definition short_item :: "item \<Rightarrow> bool" where
  "short_item it = (length (item_text it) < 2300)"

text \<open>
  The merge events among the counted items: every short one but the first, which has no
  chapter before it.
\<close>

definition merge_events :: "item list \<Rightarrow> nat" where
  "merge_events items = length (filter short_item (tl (filter counted items)))"

text \<open>The reading of "non-empty" by the letter: the extracted text is not the empty string.\<close>

definition literally_nonempty :: "item \<Rightarrow> bool" where
  "literally_nonempty it = (item_is_document it \<and> item_text it \<noteq> [])"

section \<open>Chapter markers (\<^verbatim>\<open>generate_ffmpeg_metadata\<close>)\<close>

text \<open>
  \<open>dur\<close> gives \<^verbatim>\<open>len(AudioSegment.from_wav(chapter_file))\<close>, the duration in milliseconds.
  The function returns the text written to the metadata file.
\<close>

fun write_chapters :: "(string \<Rightarrow> nat) \<Rightarrow> nat \<Rightarrow> nat \<Rightarrow> string list \<Rightarrow> string" where
  "write_chapters dur index start_time [] = []"
| "write_chapters dur index start_time (chapter_file # rest) =
     (let duration_ms = dur chapter_file in
      ''[CHAPTER]'' @ nl @ ''TIMEBASE=1/1000'' @ nl @ ''START='' @ str_nat start_time @ nl
      @ ''END='' @ str_nat (start_time + duration_ms) @ nl
      @ ''title=Chapter '' @ str_nat (index + 1) @ nl
      @ write_chapters dur (index + 1) (start_time + duration_ms) rest)"

definition generate_ffmpeg_metadata :: "(string \<Rightarrow> nat) \<Rightarrow> string list \<Rightarrow> string" where
  "generate_ffmpeg_metadata dur chapter_files =
     '';FFMETADATA1'' @ nl @ write_chapters dur 0 0 chapter_files"

text \<open>The specification's chapter marker and its rendering in the metadata file.\<close>

record marker =
  marker_start :: nat
  marker_end :: nat
  marker_title :: string

definition render_marker :: "marker \<Rightarrow> string" where
  "render_marker m =
     ''[CHAPTER]'' @ nl @ ''TIMEBASE=1/1000'' @ nl @ ''START='' @ str_nat (marker_start m) @ nl
     @ ''END='' @ str_nat (marker_end m) @ nl
     @ ''title='' @ marker_title m @ nl"

definition spec_marker :: "nat list \<Rightarrow> nat \<Rightarrow> marker" where
  "spec_marker ds i =
     \<lparr>marker_start = sum_list (take i ds),
      marker_end = sum_list (take i ds) + ds ! i,
      marker_title = ''Chapter '' @ str_nat (i + 1)\<rparr>"

definition spec_markers :: "nat list \<Rightarrow> marker list" where
  "spec_markers ds = map (spec_marker ds) [0..<length ds]"

section \<open>Ordering of chapter artifacts\<close>

text \<open>\<^verbatim>\<open>sort_key\<close> of \<^verbatim>\<open>create_m4b_from_chapters\<close>.\<close>

definition sort_key_wav :: "string \<Rightarrow> nat" where
  "sort_key_wav chapter_file =
     (case findall_digits chapter_file of [] \<Rightarrow> 0 | n # _ \<Rightarrow> int_of_digits n)"

text \<open>\<^verbatim>\<open>sort_key\<close> of \<^verbatim>\<open>create_chapter_labeled_book\<close>.\<close>

definition sort_key_txt :: "string \<Rightarrow> nat" where
  "sort_key_txt filename =
     (case search_chapter_txt filename of None \<Rightarrow> 0 | Some g \<Rightarrow> int_of_digits g)"

text \<open>
  Line 132: the audio files of the listing \<^verbatim>\<open>os.listdir(input_dir)\<close>, joined to the
  directory, in the order of Python's stable \<^verbatim>\<open>sorted(..., key=sort_key)\<close>.
\<close>

definition chapter_files_sorted :: "string \<Rightarrow> string list \<Rightarrow> string list" where
  "chapter_files_sorted input_dir listing =
     sort_key sort_key_wav
       (map (path_join input_dir) (filter (\<lambda>f. endswith f ''.wav'') listing))"

definition audio_chapter_name :: "nat \<Rightarrow> string" where
  "audio_chapter_name n = ''audio_chapter_'' @ str_nat n @ ''.wav''"

definition output_audio_directory :: string where
  "output_audio_directory = path_join ''.'' ''Chapter_wav_files''"

text \<open>
  \<^verbatim>\<open>combine_chapters\<close>: the folder is the list of its entries, each a name with the
  content of the file. The result is the text written to the output file.
\<close>

definition sorted_txt_files :: "(string \<times> string) list \<Rightarrow> (string \<times> string) list" where
  "sorted_txt_files folder =
     sort_key (\<lambda>e. sort_key_txt (fst e)) (filter (\<lambda>e. endswith (fst e) ''.txt'') folder)"

fun write_combined :: "nat \<Rightarrow> nat \<Rightarrow> (string \<times> string) list \<Rightarrow> string" where
  "write_combined n i [] = []"
| "write_combined n i (e # rest) =
     snd e @ (if int i < int n - 1 then nl @ ''NEWCHAPTERABC'' @ nl else [])
     @ write_combined n (i + 1) rest"

definition combine_chapters :: "(string \<times> string) list \<Rightarrow> string" where
  "combine_chapters folder =
     (let sorted_files = sorted_txt_files folder
      in write_combined (length sorted_files) 0 sorted_files)"

text \<open>
  The loop of \<^verbatim>\<open>generate_ffmpeg_metadata\<close> started at chapter number \<open>index\<close> and
  offset \<open>start_time\<close> writes the markers of the specification shifted by both.
\<close>

definition shifted_marker :: "nat \<Rightarrow> nat \<Rightarrow> nat list \<Rightarrow> nat \<Rightarrow> marker" where
  "shifted_marker index start_time ds i =
     \<lparr>marker_start = start_time + sum_list (take i ds),
      marker_end = start_time + sum_list (take i ds) + ds ! i,
      marker_title = ''Chapter '' @ str_nat (index + i + 1)\<rparr>"

section \<open>External commands\<close>

text \<open>
  What starting an external command can do: it runs and exits with a status, its standard
  output and its diagnostic stream captured, or it cannot be started and Python raises
  (\<^verbatim>\<open>FileNotFoundError\<close> for a missing executable, or another error).
\<close>

datatype start_error = File_Not_Found string | Other_Error string

datatype run_outcome = Exited int string string | Not_Started start_error

datatype py_exception =
    CalledProcessError int "string list" "string option" "string option"
  | FileNotFoundError string
  | ValueError string
  | AttributeError string
  | Exception string

definition raise_start_error :: "start_error \<Rightarrow> py_exception" where
  "raise_start_error e = (case e of File_Not_Found f \<Rightarrow> FileNotFoundError f | Other_Error m \<Rightarrow> Exception m)"

text \<open>\<^verbatim>\<open>subprocess.run(cmd, check=True, capture_output=True)\<close>\<close>

definition subprocess_run :: "string list \<Rightarrow> run_outcome \<Rightarrow> py_exception + string \<times> string" where
  "subprocess_run cmd outcome =
     (case outcome of
        Exited returncode out err \<Rightarrow>
          if returncode = 0 then Inr (out, err)
          else Inl (CalledProcessError returncode cmd (Some out) (Some err))
      | Not_Started e \<Rightarrow> Inl (raise_start_error e))"

section \<open>Final muxing (\<^verbatim>\<open>create_m4b\<close>)\<close>

text \<open>
  \<open>rc k\<close> is the exit status of the \<open>k\<close>-th call of \<^verbatim>\<open>subprocess.run(..., check=True)\<close>
  made by the function (counted from 0); a status other than 0 raises
  \<^verbatim>\<open>CalledProcessError\<close>. A run holds the command lines run, in order, and the messages
  printed.
\<close>

datatype m4b_message =
    Metadata_Failed
  | Found_Cover_Art
  | Cover_Art_Failed
  | Failed_To_Create
  | Final_Attempt_Failed int
  | Created_Successfully string

record m4b_run =
  m4b_commands :: "string list list"
  m4b_printed :: "m4b_message list"

text \<open>Python's truth value of \<^verbatim>\<open>cover_image\<close>, which is \<^verbatim>\<open>None\<close> or a path.\<close>

definition truthy :: "string option \<Rightarrow> bool" where
  "truthy cover_image = (case cover_image of None \<Rightarrow> False | Some p \<Rightarrow> p \<noteq> [])"

definition cover_args :: "string option \<Rightarrow> string list" where
  "cover_args cover_image =
     (case cover_image of
        Some p \<Rightarrow> if p \<noteq> [] then [''-i'', p, ''-map'', ''0:a'', ''-map'', ''2:v'',
                                   ''-c:v'', ''png'', ''-disposition:v'', ''attached_pic'']
                  else [''-map'', ''0:a'']
      | None \<Rightarrow> [''-map'', ''0:a''])"

definition level1_cmd :: "string \<Rightarrow> string \<Rightarrow> string option \<Rightarrow> string \<Rightarrow> string list" where
  "level1_cmd combined_wav metadata_file cover_image output_m4b =
     [''ffmpeg'', ''-i'', combined_wav, ''-i'', metadata_file] @ cover_args cover_image
     @ [''-map_metadata'', ''1'', ''-c:a'', ''aac'', ''-b:a'', ''192k''] @ [output_m4b]"

definition level2_cmd :: "string \<Rightarrow> string option \<Rightarrow> string list" where
  "level2_cmd combined_wav cover_image =
     [''ffmpeg'', ''-i'', combined_wav] @ cover_args cover_image
     @ [''-c:a'', ''aac'', ''-b:a'', ''192k'']"

definition level3_cmd :: "string \<Rightarrow> string list" where
  "level3_cmd combined_wav =
     [''ffmpeg'', ''-i'', combined_wav] @ [''-map'', ''0:a''] @ [''-c:a'', ''aac'', ''-b:a'', ''192k'']"

definition level4_cmd :: "string \<Rightarrow> string \<Rightarrow> string list" where
  "level4_cmd combined_wav output_m4b =
     [''ffmpeg'', ''-i'', combined_wav, ''-c:a'', ''aac'', ''-b:a'', ''192k'', output_m4b]"

text \<open>\<^verbatim>\<open>os.path.dirname(p)\<close> on a POSIX system.\<close>

definition dirname :: "string \<Rightarrow> string" where
  "dirname p =
     (let head = rev (dropWhile (\<lambda>c. c \<noteq> CHR ''/'') (rev p))
      in if head \<noteq> [] \<and> \<not> list_all (\<lambda>c. c = CHR ''/'') head
         then rev (dropWhile (\<lambda>c. c = CHR ''/'') (rev head))
         else head)"

text \<open>
  \<^verbatim>\<open>os.makedirs(name, exist_ok=True)\<close>: the empty name raises \<^verbatim>\<open>FileNotFoundError\<close>; for
  any other name \<open>mkdir name\<close> is the error the file system answers with, if any.
\<close>

definition makedirs :: "(string \<Rightarrow> py_exception option) \<Rightarrow> string \<Rightarrow> py_exception option" where
  "makedirs mkdir name = (if name = [] then Some (FileNotFoundError name) else mkdir name)"

text \<open>
  The function returns \<open>Inl\<close> the exception that leaves it (only \<^verbatim>\<open>CalledProcessError\<close> is
  handled, and only around the calls of the muxer), or \<open>Inr\<close> the commands run and the
  messages printed.
\<close>

definition create_m4b ::
  "(string \<Rightarrow> py_exception option) \<Rightarrow> (nat \<Rightarrow> int) \<Rightarrow> string \<Rightarrow> string \<Rightarrow> string option
     \<Rightarrow> string \<Rightarrow> py_exception + m4b_run" where
  "create_m4b mkdir rc combined_wav metadata_file cover_image output_m4b =
     (case makedirs mkdir (dirname output_m4b) of
        Some e \<Rightarrow> Inl e
      | None \<Rightarrow>
         (let cmd1 = level1_cmd combined_wav metadata_file cover_image output_m4b;
              cmd2 = level2_cmd combined_wav cover_image;
              cmd3 = level3_cmd combined_wav;
              cmd4 = level4_cmd combined_wav output_m4b;
              done = [Created_Successfully output_m4b]
          in if rc 0 = 0 then
               Inr \<lparr>m4b_commands = [cmd1], m4b_printed = done\<rparr>
             else if rc 1 = 0 then
               Inr \<lparr>m4b_commands = [cmd1, cmd2],
                    m4b_printed = [Metadata_Failed]
                                  @ (if truthy cover_image then [Found_Cover_Art] else [])
                                  @ done\<rparr>
             else
               Inr \<lparr>m4b_commands = [cmd1, cmd2, cmd3, cmd4],
                    m4b_printed = [Metadata_Failed]
                                  @ (if truthy cover_image then [Found_Cover_Art] else [])
                                  @ [Cover_Art_Failed]
                                  @ (if rc 2 = 0 then [] else [Failed_To_Create])
                                  @ (if rc 3 = 0 then [] else [Final_Attempt_Failed (rc 3)])
                                  @ done\<rparr>))"

section \<open>Per-sentence synthesis (\<^verbatim>\<open>convert_chapters_to_audio_espeak\<close>)\<close>

text \<open>
  A sentence is Unicode text, the list of its code points, so that the em-dash U+2014 and
  the typographic quotes can be written; \<open>ustr\<close> gives the code points of a literal.
\<close>

type_synonym unicode = "nat list"




datatype synth_message =
    Sanitized_Used unicode
  | Failed_To_Convert unicode
  | Error_Line int
  | Skipping_Sentence unicode

text \<open>
  The state of the loop over the sentences: the texts handed to the synthesizer so far,
  the audio combined so far (\<^verbatim>\<open>AudioSegment\<close> as the list of its samples) and the lines
  printed.
\<close>

record 'a synth_state =
  synth_calls :: "unicode list"
  combined_audio :: "'a list"
  synth_printed :: "synth_message list"







section \<open>Sentence spans (\<^verbatim>\<open>process_chapter_files\<close>)\<close>

record span_row =
  row_text :: string
  row_start :: int
  row_end :: int
  row_is_quote :: string
  row_speaker :: string
  row_chapter :: nat

text \<open>The text that is tokenized and searched: the file's text behind the marker.\<close>

definition marked_text :: "string \<Rightarrow> string" where
  "marked_text raw = (if raw \<noteq> [] then ''NEWCHAPTERABC'' @ raw else raw)"

text \<open>
  Lines 218-225 for one chapter file: \<open>raw\<close> is \<^verbatim>\<open>file.read()\<close>, \<open>sent_tokenize\<close> is
  \<^verbatim>\<open>nltk.tokenize.sent_tokenize\<close>, the result is the rows written to the CSV.
\<close>

definition process_chapter_text :: "(string \<Rightarrow> string list) \<Rightarrow> string \<Rightarrow> nat \<Rightarrow> span_row list" where
  "process_chapter_text sent_tokenize raw chapter_number =
     (let text = marked_text raw;
          sentences = sent_tokenize text
      in map (\<lambda>sentence.
           (let start = py_find text sentence;
                end_loc = start + int (length sentence)
            in \<lparr>row_text = sentence, row_start = start, row_end = end_loc,
                row_is_quote = ''True'', row_speaker = ''Narrator'', row_chapter = chapter_number\<rparr>))
         sentences)"

text \<open>\<open>sub\<close> occurs in \<open>text\<close> at index \<open>i\<close>.\<close>

definition occurs_at :: "string \<Rightarrow> string \<Rightarrow> nat \<Rightarrow> bool" where
  "occurs_at text sub i = (i + length sub \<le> length text \<and> take (length sub) (drop i text) = sub)"

section \<open>The chapters as a list\<close>

text \<open>
  The chapters that the segmentation describes, as the list of their texts in document
  order: a counted item that is short is appended to the last chapter when there is one,
  and starts a new chapter otherwise.
\<close>

definition add_item :: "item \<Rightarrow> string list \<Rightarrow> string list" where
  "add_item it chs =
     (if counted it then
        (if short_item it \<and> chs \<noteq> [] then butlast chs @ [last chs @ nl @ item_text it]
         else chs @ [item_text it])
      else chs)"

definition chapters_of :: "item list \<Rightarrow> string list" where
  "chapters_of items = fold add_item items []"

text \<open>The state of the loop stores the chapters \<open>chs\<close> under their 0-based paths.\<close>

definition stores :: "seg_state \<Rightarrow> string list \<Rightarrow> bool" where
  "stores st chs =
     (chapter_counter st = length chs
      \<and> previous_filename st = (if chs = [] then [] else chapter_path (length chs - 1))
      \<and> list_all (\<lambda>k. seg_files st (chapter_path k) = Some (chs ! k)) [0..<length chs]
      \<and> seg_printed st = map (\<lambda>k. ''Saved chapter: '' @ chapter_path k) [0..<length chs])"

text \<open>The merge events when "non-empty" is read by the letter.\<close>

definition literal_merge_events :: "item list \<Rightarrow> nat" where
  "literal_merge_events items = length (filter short_item (tl (filter literally_nonempty items)))"

text \<open>
  \<^verbatim>\<open>combine_wav_files\<close>: the audio of the chapter files, appended in the order of the list;
  \<open>from_wav\<close> is \<^verbatim>\<open>AudioSegment.from_wav\<close>.
\<close>

definition combine_wav_files :: "(string \<Rightarrow> 'a list) \<Rightarrow> string list \<Rightarrow> 'a list" where
  "combine_wav_files from_wav chapter_files =
     fold (\<lambda>chapter_file combined_audio. combined_audio @ from_wav chapter_file) chapter_files []"

definition audio_chapter_path :: "nat \<Rightarrow> string" where
  "audio_chapter_path n = path_join output_audio_directory (audio_chapter_name n)"

text \<open>\<^verbatim>\<open>sep.join(xs)\<close>: the texts in their order, with the separator between neighbours.\<close>

fun join_with :: "string \<Rightarrow> string list \<Rightarrow> string" where
  "join_with sep [] = []"
| "join_with sep [x] = x"
| "join_with sep (x # y # ys) = x @ sep @ join_with sep (y # ys)"

definition chapter_break :: string where
  "chapter_break = nl @ ''NEWCHAPTERABC'' @ nl"

section \<open>The audio a chapter is specified to contain\<close>








section \<open>Normalization in the chaptered variant (\<^verbatim>\<open>convert_to_epub\<close>, gradio\_launch.py)\<close>

text \<open>
  The world after the converter was called: how the call ended, whether the output file
  exists and how many bytes it has, and what the EPUB reader makes of an existing file
  (its items, or the exception it raises).
\<close>

record convert_world =
  convert_outcome :: run_outcome
  output_exists :: bool
  output_size :: nat
  epub_parsed :: "py_exception + item list"

text \<open>
  The result holds the command lines run, the lines printed, and the value returned or
  the exception that leaves the function (only \<^verbatim>\<open>CalledProcessError\<close> is handled).
\<close>

record epub_run =
  epub_commands :: "string list list"
  epub_printed :: "string list"
  epub_return :: "py_exception + bool"

definition convert_to_epub :: "convert_world \<Rightarrow> string \<Rightarrow> string \<Rightarrow> epub_run" where
  "convert_to_epub w input_path output_path =
     (let cmd = [''ebook-convert'', input_path, output_path] in
      case subprocess_run cmd (convert_outcome w) of
        Inr _ \<Rightarrow> \<lparr>epub_commands = [cmd], epub_printed = [], epub_return = Inr True\<rparr>
      | Inl (CalledProcessError returncode c out err) \<Rightarrow>
          \<lparr>epub_commands = [cmd],
           epub_printed = [''An error occurred while converting the eBook''],
           epub_return = Inr False\<rparr>
      | Inl e \<Rightarrow> \<lparr>epub_commands = [cmd], epub_printed = [], epub_return = Inl e\<rparr>)"

text \<open>
  \<^verbatim>\<open>epub.read_epub(epub_path)\<close> with \<^verbatim>\<open>get_items()\<close>: a missing file raises
  \<^verbatim>\<open>FileNotFoundError\<close>, an empty file is no archive and raises the reader's own
  exception.
\<close>

definition read_epub :: "convert_world \<Rightarrow> string \<Rightarrow> py_exception + item list" where
  "read_epub w epub_path =
     (if \<not> output_exists w then Inl (FileNotFoundError epub_path)
      else if output_size w = 0 then Inl (Exception ''Bad Zip file'')
      else epub_parsed w)"

text \<open>
  Lines 200-201: the chapters are saved when the conversion reports success. The result
  is the state of the segmentation, \<open>None\<close> when it was skipped, or the exception that
  leaves the function.
\<close>

definition convert_and_segment ::
  "convert_world \<Rightarrow> string \<Rightarrow> string \<Rightarrow> (string \<Rightarrow> string option)
     \<Rightarrow> py_exception + seg_state option" where
  "convert_and_segment w input_ebook output_epub fs =
     (case epub_return (convert_to_epub w input_ebook output_epub) of
        Inl e \<Rightarrow> Inl e
      | Inr ok \<Rightarrow>
          if ok then
            (case read_epub w output_epub of
               Inl e \<Rightarrow> Inl e
             | Inr items \<Rightarrow> Inr (Some (save_chapters_as_text fs items)))
          else Inr None)"

section \<open>Single-file conversion (\<^verbatim>\<open>convert_ebook_to_audio\<close>, app.py)\<close>

datatype process = Speak | Encoder

datatype pipe_action =
    Popen process "string list"
  | Close_Stdout process
  | Communicate process
  | Read_Stderr process
  | Wait process
  | Close_Stderr process

text \<open>What the two processes of the pipe do once both are started.\<close>

record pipe_world =
  speak_returncode :: int
  speak_stderr :: string
  encoder_returncode :: int
  encoder_stdout :: string
  encoder_stderr :: string

datatype pipe_outcome =
    Pipe_Ran pipe_world
  | Speak_Not_Started start_error
  | Encoder_Not_Started start_error

record pipe_run =
  pipe_actions :: "pipe_action list"
  pipe_result :: "py_exception + unit"

text \<open>
  Lines 261-285 (mp3) and 297-321 (ogg): both processes are started, the synthesizer's
  output end is closed, the encoder is waited for with \<^verbatim>\<open>communicate()\<close>, the synthesizer's
  diagnostic stream is read, the synthesizer is waited for; then the encoder's exit
  status is checked, then the synthesizer's.
\<close>

definition run_piped :: "string list \<Rightarrow> string list \<Rightarrow> pipe_outcome \<Rightarrow> pipe_run" where
  "run_piped cmd_speak cmd_encoder outcome =
     (case outcome of
        Speak_Not_Started e \<Rightarrow> \<lparr>pipe_actions = [], pipe_result = Inl (raise_start_error e)\<rparr>
      | Encoder_Not_Started e \<Rightarrow>
          \<lparr>pipe_actions = [Popen Speak cmd_speak], pipe_result = Inl (raise_start_error e)\<rparr>
      | Pipe_Ran w \<Rightarrow>
          \<lparr>pipe_actions = [Popen Speak cmd_speak, Popen Encoder cmd_encoder, Close_Stdout Speak,
                           Communicate Encoder, Read_Stderr Speak, Wait Speak, Close_Stderr Speak],
           pipe_result =
             (if encoder_returncode w \<noteq> 0 then
                Inl (CalledProcessError (encoder_returncode w) cmd_encoder
                       (Some (encoder_stdout w)) (Some (encoder_stderr w)))
              else if speak_returncode w \<noteq> 0 then
                Inl (CalledProcessError (speak_returncode w) cmd_speak None (Some (speak_stderr w)))
              else Inr ())\<rparr>)"

text \<open>The errors the function returns in place of an audio path.\<close>

datatype app_error =
    No_Ebook_File
  | Missing_Commands "string list"
  | Calibre_Conversion_Failed string
  | Conversion_Unexpected py_exception
  | Txt_Missing_Or_Empty
  | Audio_Generation_Failed py_exception
  | Command_Not_Found string
  | Audio_Unexpected py_exception
  | Audio_Missing_Or_Too_Small
  | Critical_Unexpected py_exception

text \<open>
  The world of one request: whether a file was uploaded, the commands that
  \<^verbatim>\<open>check_command\<close> did not find, whether the cover is to be embedded and how
  \<^verbatim>\<open>ebook-meta\<close> ends, how the converter ends and the state of its output file, how the
  synthesis commands end, and the state of the audio file afterwards. An outcome is what
  the command does when it is run; a command the function never reaches is not run.
\<close>

record app_world =
  ebook_file_given :: bool
  missing :: "string list"
  embed_cover :: bool
  ebook_meta :: run_outcome
  ebook_convert :: run_outcome
  txt_exists :: bool
  txt_size :: nat
  espeak_wav :: run_outcome
  espeak_pipe :: pipe_outcome
  audio_exists :: bool
  audio_size :: nat

text \<open>
  Step 1, lines 137-204, entered when the cover is to be embedded (\<^verbatim>\<open>ebook-meta\<close> was
  found, or the request has ended with the missing commands). The command runs in text
  mode, so the diagnostic stream of a \<^verbatim>\<open>CalledProcessError\<close> is a \<^verbatim>\<open>str\<close>; when it is not
  empty the handler's \<^verbatim>\<open>e.stderr.decode\<close> raises \<^verbatim>\<open>AttributeError\<close>, which leaves the step
  and is turned into an error by the outermost handler of the function. Everything else
  that can go wrong with the cover is handled inside the step.
\<close>

definition extract_cover :: "string list \<Rightarrow> app_world \<Rightarrow> app_error + unit" where
  "extract_cover cmd_meta w =
     (case subprocess_run cmd_meta (ebook_meta w) of
        Inl (CalledProcessError returncode c out err) \<Rightarrow>
          (if err \<noteq> None \<and> err \<noteq> Some [] then
             Inl (Critical_Unexpected (AttributeError ''decode''))
           else Inr ())
      | Inl e \<Rightarrow> Inr ()
      | Inr _ \<Rightarrow> Inr ())"

text \<open>
  Step 2, lines 206-237. The converter runs in text mode, so the diagnostic stream of the
  \<^verbatim>\<open>CalledProcessError\<close> is a \<^verbatim>\<open>str\<close>; when it is not empty the handler's
  \<^verbatim>\<open>e.stderr.decode\<close> raises \<^verbatim>\<open>AttributeError\<close>, which the outermost handler of the function
  turns into its own error.
\<close>

definition convert_to_txt :: "string list \<Rightarrow> app_world \<Rightarrow> app_error + unit" where
  "convert_to_txt cmd_convert w =
     (case subprocess_run cmd_convert (ebook_convert w) of
        Inl (CalledProcessError returncode c out err) \<Rightarrow>
          (if err \<noteq> None \<and> err \<noteq> Some [] then
             Inl (Critical_Unexpected (AttributeError ''decode''))
           else Inl (Calibre_Conversion_Failed ''No stderr''))
      | Inl e \<Rightarrow> Inl (Conversion_Unexpected e)
      | Inr _ \<Rightarrow>
          if \<not> txt_exists w \<or> txt_size w = 0 then Inl Txt_Missing_Or_Empty else Inr ())"

record audio_run =
  audio_commands :: "string list list"
  audio_actions :: "pipe_action list"
  audio_result :: "py_exception + unit"

text \<open>Step 3, the body of the \<^verbatim>\<open>try\<close> of lines 247-333.\<close>

definition generate_audio :: "string \<Rightarrow> string \<Rightarrow> string \<Rightarrow> string \<Rightarrow> app_world \<Rightarrow> audio_run" where
  "generate_audio voice_code txt_output_path audio_output_path output_format w =
     (let cmd_speak = [''espeak-ng'', ''-v'', voice_code, ''-f'', txt_output_path] in
      if output_format = ''wav'' then
        (let cmd = cmd_speak @ [''-w'', audio_output_path] in
         \<lparr>audio_commands = [cmd], audio_actions = [],
          audio_result = (case subprocess_run cmd (espeak_wav w) of
                            Inl e \<Rightarrow> Inl e | Inr _ \<Rightarrow> Inr ())\<rparr>)
      else if output_format = ''mp3'' then
        (let cmd = cmd_speak @ [''--stdout''];
             cmd_lame = [''lame'', ''-'', audio_output_path];
             r = run_piped cmd cmd_lame (espeak_pipe w)
         in \<lparr>audio_commands = [c. Popen p c \<leftarrow> pipe_actions r],
             audio_actions = pipe_actions r, audio_result = pipe_result r\<rparr>)
      else if output_format = ''ogg'' then
        (let cmd = cmd_speak @ [''--stdout''];
             cmd_ogg = [''oggenc'', ''-o'', audio_output_path, ''-''];
             r = run_piped cmd cmd_ogg (espeak_pipe w)
         in \<lparr>audio_commands = [c. Popen p c \<leftarrow> pipe_actions r],
             audio_actions = pipe_actions r, audio_result = pipe_result r\<rparr>)
      else \<lparr>audio_commands = [], audio_actions = [],
            audio_result = Inl (ValueError (''Unsupported output format: '' @ output_format))\<rparr>)"

text \<open>The handlers of lines 335-368.\<close>

definition audio_error :: "py_exception \<Rightarrow> app_error" where
  "audio_error e =
     (case e of
        CalledProcessError returncode cmd out err \<Rightarrow> Audio_Generation_Failed e
      | FileNotFoundError f \<Rightarrow> Command_Not_Found f
      | _ \<Rightarrow> Audio_Unexpected e)"

record app_run =
  app_commands :: "string list list"
  app_actions :: "pipe_action list"
  app_return :: "app_error + string"

text \<open>
  Steps 2 to 5, lines 206-512: the conversion to text, the synthesis, the test of the
  audio file and the return value. Step 4 embeds the cover into the audio file; it
  handles every exception itself and does not change what is returned.
\<close>

definition convert_steps ::
  "app_world \<Rightarrow> string \<Rightarrow> string \<Rightarrow> string \<Rightarrow> string \<Rightarrow> string \<Rightarrow> app_run" where
  "convert_steps w input_ebook_path temp_dir base_filename voice_code output_format =
     (let txt_output_path = path_join temp_dir (base_filename @ ''.txt'');
          audio_output_path = path_join temp_dir (base_filename @ ''.'' @ output_format);
          cmd_convert = [''ebook-convert'', input_ebook_path, txt_output_path,
                         ''--enable-heuristics'']
      in case convert_to_txt cmd_convert w of
           Inl err \<Rightarrow> \<lparr>app_commands = [cmd_convert], app_actions = [], app_return = Inl err\<rparr>
         | Inr _ \<Rightarrow>
             (let a = generate_audio voice_code txt_output_path audio_output_path
                        output_format w
              in \<lparr>app_commands = cmd_convert # audio_commands a,
                  app_actions = audio_actions a,
                  app_return =
                    (case audio_result a of
                       Inl e \<Rightarrow> Inl (audio_error e)
                     | Inr _ \<Rightarrow>
                         if \<not> audio_exists w \<or> audio_size w < 1024
                         then Inl Audio_Missing_Or_Too_Small
                         else Inr audio_output_path)\<rparr>))"

text \<open>
  The whole function, from the checks at its head to its return value: \<open>Inr\<close> the path of
  the audio file, or \<open>Inl\<close> the error returned with a null audio output; with the
  commands it has run, in order.
\<close>

definition convert_ebook_to_audio ::
  "app_world \<Rightarrow> string \<Rightarrow> string \<Rightarrow> string \<Rightarrow> string \<Rightarrow> string \<Rightarrow> app_run" where
  "convert_ebook_to_audio w input_ebook_path temp_dir base_filename voice_code output_format =
     (if \<not> ebook_file_given w then
        \<lparr>app_commands = [], app_actions = [], app_return = Inl No_Ebook_File\<rparr>
      else if missing w \<noteq> [] then
        \<lparr>app_commands = [], app_actions = [], app_return = Inl (Missing_Commands (missing w))\<rparr>
      else if embed_cover w then
        (let cmd_meta = [''ebook-meta'', input_ebook_path, ''--get-cover'',
                         path_join temp_dir ''cover.jpg'']
         in case extract_cover cmd_meta w of
              Inl err \<Rightarrow> \<lparr>app_commands = [cmd_meta], app_actions = [], app_return = Inl err\<rparr>
            | Inr _ \<Rightarrow>
                (let r = convert_steps w input_ebook_path temp_dir base_filename voice_code
                           output_format
                 in r\<lparr>app_commands := cmd_meta # app_commands r\<rparr>))
      else convert_steps w input_ebook_path temp_dir base_filename voice_code output_format)"

text \<open>The vocabulary of the claims about this function.\<close>

definition exited_zero :: "run_outcome \<Rightarrow> bool" where
  "exited_zero outcome = (case outcome of Exited returncode out err \<Rightarrow> returncode = 0 | Not_Started e \<Rightarrow> False)"

definition normalized :: "app_world \<Rightarrow> bool" where
  "normalized w = (exited_zero (ebook_convert w) \<and> txt_exists w \<and> txt_size w \<noteq> 0)"

text \<open>
  The errors of the normalization: the converter's failure passed through, an unexpected
  error of the call, and the missing or empty output.
\<close>

definition is_conversion_error :: "app_error + string \<Rightarrow> bool" where
  "is_conversion_error r =
     (case r of
        Inl (Calibre_Conversion_Failed m) \<Rightarrow> True
      | Inl (Conversion_Unexpected e) \<Rightarrow> True
      | Inl Txt_Missing_Or_Empty \<Rightarrow> True
      | _ \<Rightarrow> False)"

text \<open>
  A command exits non-zero and has written to its diagnostic stream: the case in which
  the handlers of lines 197 and 220 raise instead of reporting.
\<close>

definition failed_with_stderr :: "run_outcome \<Rightarrow> bool" where
  "failed_with_stderr outcome =
     (case outcome of
        Exited returncode out err \<Rightarrow> returncode \<noteq> 0 \<and> err \<noteq> []
      | Not_Started e \<Rightarrow> False)"

definition cover_step_aborts :: "app_world \<Rightarrow> bool" where
  "cover_step_aborts w = (embed_cover w \<and> failed_with_stderr (ebook_meta w))"

definition convert_handler_slips :: "app_world \<Rightarrow> bool" where
  "convert_handler_slips w = failed_with_stderr (ebook_convert w)"

definition accepted :: "app_world \<Rightarrow> bool" where
  "accepted w = (ebook_file_given w \<and> missing w = [])"

text \<open>Every audio command of the chosen format ran and exited with status 0.\<close>

definition audio_commands_exit_zero :: "string \<Rightarrow> app_world \<Rightarrow> bool" where
  "audio_commands_exit_zero output_format w =
     (if output_format = ''wav'' then exited_zero (espeak_wav w)
      else if output_format = ''mp3'' \<or> output_format = ''ogg'' then
        (case espeak_pipe w of
           Pipe_Ran p \<Rightarrow> speak_returncode p = 0 \<and> encoder_returncode p = 0
         | _ \<Rightarrow> False)
      else False)"

text \<open>A tokenizer for the examples: it splits the one text it knows as NLTK does.\<close>

definition two_sentences :: "string \<Rightarrow> string list" where
  "two_sentences text =
     (if text = ''NEWCHAPTERABCHello. World.'' then [''NEWCHAPTERABCHello.'', ''World.''] else [])"

text \<open>
  A world for the examples: the upload and the commands are there, the cover extraction,
  the converter and the WAV synthesis exit with status 0, the encoder of the pipe exits with status 1, and the
  audio file has 500 bytes.
\<close>

definition example_world :: app_world where
  "example_world =
     \<lparr>ebook_file_given = True, missing = [],
      embed_cover = True, ebook_meta = Exited 0 [] [],
      ebook_convert = Exited 0 [] [], txt_exists = True, txt_size = 100,
      espeak_wav = Exited 0 [] [],
      espeak_pipe = Pipe_Ran \<lparr>speak_returncode = 0, speak_stderr = [],
                             encoder_returncode = 1, encoder_stdout = [],
                             encoder_stderr = ''lame: unsupported audio format''\<rparr>,
      audio_exists = True, audio_size = 500\<rparr>"

section \<open>Decimal numerals and chapter paths\<close>

lemma of_char_digit_char: "d < 10 \<Longrightarrow> (of_char (digit_char d) :: nat) = 48 + d"
  by (simp add: digit_char_def)

lemma digit_val_digit_char: "d < 10 \<Longrightarrow> digit_val (digit_char d) = d"
  by (simp add: digit_val_def of_char_digit_char)

lemma is_digit_digit_char: "d < 10 \<Longrightarrow> is_digit (digit_char d)"
  by (simp add: is_digit_def of_char_digit_char)

lemma int_of_digits_snoc: "int_of_digits (ds @ [c]) = 10 * int_of_digits ds + digit_val c"
  by (simp add: int_of_digits_def)

lemma int_of_digits_str_nat: "int_of_digits (str_nat n) = n"
proof (induction n rule: str_nat.induct)
  case (1 n)
  show ?case
  proof (cases "n < 10")
    case True
    then show ?thesis
      by (subst str_nat.simps) (simp add: int_of_digits_def digit_val_digit_char)
  next
    case False
    then have "int_of_digits (str_nat n) = 10 * (n div 10) + n mod 10"
      by (subst str_nat.simps) (simp add: int_of_digits_snoc "1.IH" digit_val_digit_char)
    then show ?thesis by simp
  qed
qed

lemma str_nat_digits: "list_all is_digit (str_nat n)"
proof (induction n rule: str_nat.induct)
  case (1 n)
  show ?case
    by (subst str_nat.simps) (use 1 in \<open>simp add: is_digit_digit_char\<close>)
qed

lemma str_nat_nonempty: "str_nat n \<noteq> []"
  by (subst str_nat.simps) simp

lemma str_nat_inj: "str_nat a = str_nat b \<Longrightarrow> a = b"
  by (metis int_of_digits_str_nat)

lemma directory_eq: "directory = ''./Working_files/temp_ebook''"
  by (simp add: directory_def path_join_def startswith_def endswith_def)

lemma chapter_path_eq:
  "chapter_path n = ''./Working_files/temp_ebook/chapter_'' @ str_nat n @ ''.txt''"
  by (simp add: chapter_path_def chapter_name_def directory_eq path_join_def startswith_def
      endswith_def)

lemma chapter_path_inj: "chapter_path a = chapter_path b \<Longrightarrow> a = b"
  by (simp add: chapter_path_eq str_nat_inj)

lemma chapter_path_nonempty: "chapter_path n \<noteq> []"
  by (simp add: chapter_path_eq)

section \<open>Chapter markers are the running sums of the durations\<close>

lemma shifted_marker_Suc:
  "shifted_marker index start_time (d # ds) (Suc i)
     = shifted_marker (index + 1) (start_time + d) ds i"
  by (simp add: shifted_marker_def add.assoc)

lemma write_chapters_step:
  "write_chapters dur index start_time (f # fs) =
     render_marker (shifted_marker index start_time (dur f # map dur fs) 0)
     @ write_chapters dur (index + 1) (start_time + dur f) fs"
  by (simp add: render_marker_def shifted_marker_def Let_def)

lemma write_chapters_markers:
  "write_chapters dur index start_time fs =
     concat (map (\<lambda>i. render_marker (shifted_marker index start_time (map dur fs) i))
       [0..<length fs])"
proof (induction fs arbitrary: index start_time)
  case Nil
  show ?case by simp
next
  case (Cons f fs)
  have upt: "[0..<length (f # fs)] = 0 # map Suc [0..<length fs]"
    by (simp add: upt_conv_Cons map_Suc_upt del: upt_Suc)
  show ?case
    unfolding upt write_chapters_step Cons.IH
    by (simp only: list.map concat.simps map_map comp_def shifted_marker_Suc)
qed

lemma shifted_marker_0: "shifted_marker 0 0 ds = spec_marker ds"
  by (rule ext) (simp add: shifted_marker_def spec_marker_def)

text \<open>
  Claim C5. For the chapter audio files in their order, with durations \<open>d1..dN\<close> in
  milliseconds, the metadata file is the header followed by exactly \<open>N\<close> chapter entries;
  the \<open>i\<close>-th one (counted from 0 in \<open>spec_marker\<close>) has START the sum of the durations
  before it, END that sum plus its own duration, and the title "Chapter" with its
  1-based number.
\<close>

theorem metadata_entries:
  "generate_ffmpeg_metadata dur chapter_files =
     '';FFMETADATA1'' @ nl @ concat (map render_marker (spec_markers (map dur chapter_files)))
   \<and> length (spec_markers (map dur chapter_files)) = length chapter_files"
  unfolding generate_ffmpeg_metadata_def write_chapters_markers spec_markers_def shifted_marker_0
  by (simp add: comp_def)

section \<open>The segmentation stores the chapters under 0-based paths\<close>

lemma stores_all:
  "stores st chs \<Longrightarrow> k < length chs \<Longrightarrow> seg_files st (chapter_path k) = Some (chs ! k)"
  by (simp add: stores_def list_all_iff)

lemma stores_previous_nonempty: "stores st chs \<Longrightarrow> (previous_filename st \<noteq> []) = (chs \<noteq> [])"
  by (simp add: stores_def chapter_path_nonempty)

lemma stores_init: "stores (seg_init fs) []"
  by (simp add: stores_def seg_init_def)

lemma stores_skip: "\<not> counted it \<Longrightarrow> save_item it st = st"
  by (auto simp: save_item_def counted_def Let_def)

lemma add_item_skip: "\<not> counted it \<Longrightarrow> add_item it chs = chs"
  by (simp add: add_item_def)

lemma stores_merge:
  assumes st: "stores st chs" and c: "counted it" and s: "short_item it" and ne: "chs \<noteq> []"
  shows "stores (save_item it st) (butlast chs @ [last chs @ nl @ item_text it])"
proof -
  let ?p = "chapter_path (length chs - 1)"
  let ?chs = "butlast chs @ [last chs @ nl @ item_text it]"
  have prev: "previous_filename st = ?p" using st ne by (simp add: stores_def)
  have old: "seg_files st ?p = Some (last chs)"
    using stores_all[OF st, of "length chs - 1"] ne by (simp add: last_conv_nth)
  have step: "save_item it st
      = st\<lparr>seg_files := (seg_files st)(?p \<mapsto> last chs @ nl @ item_text it)\<rparr>"
    using c s prev old ne
    by (simp add: save_item_def counted_def short_item_def Let_def file_append_def
        chapter_path_nonempty)
  have len: "length ?chs = length chs" using ne by simp
  have files: "(if chapter_path k = ?p then Some (last chs @ nl @ item_text it)
                else seg_files st (chapter_path k)) = Some (?chs ! k)"
    if "k < length chs" for k
  proof (cases "k = length chs - 1")
    case True
    then show ?thesis using ne by (simp add: nth_append)
  next
    case False
    then have "chapter_path k \<noteq> ?p" using chapter_path_inj by blast
    moreover have "k < length (butlast chs)" using False that by simp
    then have "?chs ! k = chs ! k"
      by (simp only: nth_append nth_butlast if_True)
    ultimately show ?thesis using stores_all[OF st that] by simp
  qed
  show ?thesis
    unfolding stores_def step len
    using st ne files by (simp add: stores_def list_all_iff)
qed

lemma stores_new:
  assumes st: "stores st chs" and c: "counted it" and s: "\<not> (short_item it \<and> chs \<noteq> [])"
  shows "stores (save_item it st) (chs @ [item_text it])"
proof -
  let ?p = "chapter_path (length chs)"
  have cnt: "chapter_counter st = length chs" using st by (simp add: stores_def)
  have cond: "(length (item_text it) < 2300 \<and> previous_filename st \<noteq> []) = False"
    using s stores_previous_nonempty[OF st] by (simp add: short_item_def)
  have step: "save_item it st
      = st\<lparr>previous_filename := ?p, chapter_counter := length chs + 1,
           seg_files := (seg_files st)(?p \<mapsto> item_text it),
           seg_printed := seg_printed st @ [''Saved chapter: '' @ ?p]\<rparr>"
    using c cnt unfolding save_item_def Let_def cond by (simp add: counted_def)
  have files: "(if chapter_path k = ?p then Some (item_text it) else seg_files st (chapter_path k))
                = Some ((chs @ [item_text it]) ! k)"
    if "k < length chs + 1" for k
  proof (cases "k = length chs")
    case True
    then show ?thesis by simp
  next
    case False
    then have "chapter_path k \<noteq> ?p" using chapter_path_inj by blast
    moreover have "k < length chs" using False that by simp
    ultimately show ?thesis using stores_all[OF st, of k] by (simp add: nth_append)
  qed
  show ?thesis
    unfolding stores_def step
    using st files by (simp add: stores_def list_all_iff)
qed

lemma stores_step: "stores st chs \<Longrightarrow> stores (save_item it st) (add_item it chs)"
  by (simp add: add_item_def stores_skip stores_merge stores_new)

lemma stores_fold: "stores st chs \<Longrightarrow> stores (fold save_item items st) (fold add_item items chs)"
  by (induction items arbitrary: st chs) (simp_all add: stores_step)

lemma stores_chapters: "stores (save_chapters_as_text fs items) (chapters_of items)"
  by (simp add: save_chapters_as_text_def chapters_of_def stores_fold stores_init)

section \<open>Counting the chapters\<close>

lemma fold_add_item_nonempty:
  "chs \<noteq> [] \<Longrightarrow>
     fold add_item items chs \<noteq> []
     \<and> length (fold add_item items chs)
         = length chs + length (filter (\<lambda>i. counted i \<and> \<not> short_item i) items)"
proof (induction items arbitrary: chs)
  case Nil
  then show ?case by simp
next
  case (Cons it items)
  have ne: "add_item it chs \<noteq> []" using Cons.prems by (simp add: add_item_def)
  have len: "length (add_item it chs) = length chs + (if counted it \<and> \<not> short_item it then 1 else 0)"
    using Cons.prems by (simp add: add_item_def)
  show ?case using Cons.IH[OF ne] len by simp
qed

lemma length_chapters_of:
  "length (chapters_of items) =
     (case filter counted items of [] \<Rightarrow> 0
      | c # cs \<Rightarrow> 1 + length (filter (\<lambda>i. \<not> short_item i) cs))"
  unfolding chapters_of_def
proof (induction items)
  case Nil
  show ?case by simp
next
  case (Cons it items)
  show ?case
  proof (cases "counted it")
    case False
    then have "add_item it [] = []" by (simp add: add_item_def)
    then show ?thesis using False Cons.IH by simp
  next
    case True
    have "length (fold add_item items [item_text it])
            = 1 + length (filter (\<lambda>i. counted i \<and> \<not> short_item i) items)"
      using fold_add_item_nonempty[of "[item_text it]" items] by simp
    moreover have "add_item it [] = [item_text it]"
      using True by (simp add: add_item_def)
    ultimately show ?thesis using True by (simp add: conj_commute)
  qed
qed

lemma length_chapters_of_merge:
  "length (chapters_of items) = length (filter counted items) - merge_events items"
proof (cases "filter counted items")
  case Nil
  then show ?thesis by (simp add: length_chapters_of)
next
  case (Cons c cs)
  have "length (filter short_item cs) + length (filter (\<lambda>i. \<not> short_item i) cs) = length cs"
    by (rule sum_length_filter_compl)
  then show ?thesis using Cons by (simp add: length_chapters_of merge_events_def)
qed

lemma chapters_of_first:
  "\<not> list_ex counted pre \<Longrightarrow> counted it \<Longrightarrow> chapters_of (pre @ [it]) = [item_text it]"
proof -
  assume pre: "\<not> list_ex counted pre" and it: "counted it"
  have skip: "add_item i [] = []" if "\<not> counted i" for i
    using that by (simp add: add_item_def)
  have "fold add_item pre [] = []"
    using pre by (induction pre) (simp_all add: skip)
  moreover have "add_item it [] = [item_text it]"
    using it by (simp add: add_item_def)
  ultimately show ?thesis by (simp add: chapters_of_def)
qed

section \<open>Evaluating the segmentation on concrete items\<close>

lemma str_nat_digit: "n < 10 \<Longrightarrow> str_nat n = [digit_char n]"
  by (subst str_nat.simps) simp

lemma digit_char_numerals:
  "digit_char 0 = CHR ''0''" "digit_char 1 = CHR ''1''" "digit_char 2 = CHR ''2''"
  "digit_char 3 = CHR ''3''" "digit_char 4 = CHR ''4''" "digit_char 5 = CHR ''5''"
  "digit_char 6 = CHR ''6''" "digit_char 7 = CHR ''7''" "digit_char 8 = CHR ''8''"
  "digit_char 9 = CHR ''9''"
  by (simp_all add: digit_char_def char_of_def bit_0)

lemma digit_char_Suc_0: "digit_char (Suc 0) = CHR ''1''"
  using digit_char_numerals(2) by simp

lemma str_nat_1: "str_nat (Suc 0) = ''1''"
  using str_nat_digit[of 1] by (simp add: digit_char_Suc_0)

lemma strip_first: "\<not> py_isspace c \<Longrightarrow> strip (c # cs) \<noteq> []"
  by (simp add: strip_def)

lemma counted_simps:
  "counted \<lparr>item_is_document = d, item_text = t\<rparr> = (d \<and> strip t \<noteq> [])"
  by (simp add: counted_def)

section \<open>Chapter indices\<close>

text \<open>
  Claim C1, as amended. For every input the chapter indices are contiguous and follow the
  document order, and they start at 0: the loop has started as many chapters as
  \<open>chapters_of\<close> lists, it has announced the files \<^verbatim>\<open>chapter_0.txt\<close>,
  \<^verbatim>\<open>chapter_1.txt\<close>, ... in that order, one per chapter, and the file with index \<open>k\<close>
  holds the text of the \<open>k\<close>-th chapter of the document (counted from 0).
\<close>

theorem chapter_indices_from_zero:
  "chapter_counter (save_chapters_as_text fs items) = length (chapters_of items)
   \<and> seg_printed (save_chapters_as_text fs items)
       = map (\<lambda>k. ''Saved chapter: ./Working_files/temp_ebook/chapter_'' @ str_nat k @ ''.txt'')
           [0..<length (chapters_of items)]
   \<and> (\<forall>k < length (chapters_of items).
         seg_files (save_chapters_as_text fs items)
           (''./Working_files/temp_ebook/chapter_'' @ str_nat k @ ''.txt'')
         = Some (chapters_of items ! k))"
  using stores_chapters[of fs items]
  by (simp add: stores_def list_all_iff chapter_path_eq)

text \<open>
  The theorem at a book of two chapters: the second chapter started is stored under
  index 1.
\<close>

theorem chapter_indices_from_zero_witness:
  "1 < length (chapters_of [\<lparr>item_is_document = True, item_text = ''Title''\<rparr>,
                            \<lparr>item_is_document = True, item_text = replicate 2300 (CHR ''a'')\<rparr>])
   \<and> seg_files (save_chapters_as_text Map.empty
         [\<lparr>item_is_document = True, item_text = ''Title''\<rparr>,
          \<lparr>item_is_document = True, item_text = replicate 2300 (CHR ''a'')\<rparr>])
       ''./Working_files/temp_ebook/chapter_1.txt'' = Some (replicate 2300 (CHR ''a''))"
proof -
  let ?items = "[\<lparr>item_is_document = True, item_text = ''Title''\<rparr>,
                 \<lparr>item_is_document = True, item_text = replicate 2300 (CHR ''a'')\<rparr>]"
  have long: "strip (replicate 2300 (CHR ''a'')) \<noteq> []"
    by (simp add: strip_def py_isspace_def)
  have chs: "chapters_of ?items = [''Title'', replicate 2300 (CHR ''a'')]"
    by (simp add: chapters_of_def add_item_def counted_simps short_item_def strip_first
        py_isspace_def long)
  have "\<forall>k < length (chapters_of ?items).
          seg_files (save_chapters_as_text Map.empty ?items)
            (''./Working_files/temp_ebook/chapter_'' @ str_nat k @ ''.txt'')
          = Some (chapters_of ?items ! k)"
    using chapter_indices_from_zero[of Map.empty ?items] by blast
  from this[rule_format, of 1] show ?thesis
    by (simp add: chs str_nat_1)
qed

text \<open>
  Claim C1 as stated fails: for a book with the single item "Hello" the first chapter
  artifact is \<^verbatim>\<open>chapter_0.txt\<close>, and no \<^verbatim>\<open>chapter_1.txt\<close> is written.
\<close>

theorem first_chapter_is_zero_counterexample:
  "seg_printed (save_chapters_as_text Map.empty [\<lparr>item_is_document = True, item_text = ''Hello''\<rparr>])
     = [''Saved chapter: ./Working_files/temp_ebook/chapter_0.txt'']
   \<and> seg_files (save_chapters_as_text Map.empty [\<lparr>item_is_document = True, item_text = ''Hello''\<rparr>])
       ''./Working_files/temp_ebook/chapter_0.txt'' = Some ''Hello''
   \<and> seg_files (save_chapters_as_text Map.empty [\<lparr>item_is_document = True, item_text = ''Hello''\<rparr>])
       ''./Working_files/temp_ebook/chapter_1.txt'' = None"
  by (simp add: save_chapters_as_text_def seg_init_def save_item_def Let_def strip_first
      py_isspace_def chapter_path_eq str_nat_digit digit_char_numerals)

section \<open>Number of chapters\<close>

text \<open>
  Claim C2, as amended. An item counts when it is a document whose text is not blank
  (some character is left after stripping white space). The number of chapters produced
  is the number of counted items minus the number of merge events (the counted items
  shorter than 2300 characters that have a counted item before them), hence at most the
  number of counted items; and the first counted item starts the first chapter, the file
  with index 0, whatever its length.
\<close>

theorem chapter_count:
  "chapter_counter (save_chapters_as_text fs items)
     = length (filter counted items) - merge_events items
   \<and> chapter_counter (save_chapters_as_text fs items) \<le> length (filter counted items)
   \<and> (\<not> list_ex counted pre \<and> counted it \<longrightarrow>
        chapter_counter (save_chapters_as_text fs (pre @ [it])) = 1
        \<and> previous_filename (save_chapters_as_text fs (pre @ [it])) = chapter_path 0
        \<and> seg_files (save_chapters_as_text fs (pre @ [it])) (chapter_path 0) = Some (item_text it)
        \<and> chapters_of (pre @ [it]) = [item_text it])"
proof -
  have cnt: "chapter_counter (save_chapters_as_text fs xs) = length (chapters_of xs)" for xs
    using stores_chapters[of fs xs] by (simp add: stores_def)
  have first: "chapter_counter (save_chapters_as_text fs (pre @ [it])) = 1
        \<and> previous_filename (save_chapters_as_text fs (pre @ [it])) = chapter_path 0
        \<and> seg_files (save_chapters_as_text fs (pre @ [it])) (chapter_path 0) = Some (item_text it)
        \<and> chapters_of (pre @ [it]) = [item_text it]"
    if "\<not> list_ex counted pre" "counted it"
    using stores_chapters[of fs "pre @ [it]"] chapters_of_first[OF that]
    by (simp add: stores_def)
  show ?thesis
    using first by (simp add: cnt length_chapters_of_merge)
qed

text \<open>
  The theorem at a book whose first item is blank and whose second item is the short
  text "Hi": the second item starts the first chapter.
\<close>

theorem chapter_count_witness:
  "\<not> list_ex counted [\<lparr>item_is_document = True, item_text = '' ''\<rparr>]
   \<and> counted \<lparr>item_is_document = True, item_text = ''Hi''\<rparr>
   \<and> chapter_counter (save_chapters_as_text Map.empty
        ([\<lparr>item_is_document = True, item_text = '' ''\<rparr>]
         @ [\<lparr>item_is_document = True, item_text = ''Hi''\<rparr>])) = 1
   \<and> seg_files (save_chapters_as_text Map.empty
        ([\<lparr>item_is_document = True, item_text = '' ''\<rparr>]
         @ [\<lparr>item_is_document = True, item_text = ''Hi''\<rparr>])) (chapter_path 0) = Some ''Hi''"
proof -
  have a: "\<not> list_ex counted [\<lparr>item_is_document = True, item_text = '' ''\<rparr>]"
    by (simp add: counted_simps strip_def py_isspace_def)
  have b: "counted \<lparr>item_is_document = True, item_text = ''Hi''\<rparr>"
    by (simp add: counted_simps strip_first py_isspace_def)
  show ?thesis
    using a b chapter_count[of Map.empty "[]" "[\<lparr>item_is_document = True, item_text = '' ''\<rparr>]"
        "\<lparr>item_is_document = True, item_text = ''Hi''\<rparr>"]
    by simp
qed

text \<open>
  Claim C2 as stated fails when "non-empty" is read by the letter: the item whose text is
  a single space is not the empty string and has no chapter before it, so the claim
  counts one chapter; the loop strips the text first and produces none.
\<close>

theorem blank_item_counterexample:
  "length (filter literally_nonempty [\<lparr>item_is_document = True, item_text = '' ''\<rparr>])
     - literal_merge_events [\<lparr>item_is_document = True, item_text = '' ''\<rparr>] = 1
   \<and> chapter_counter
        (save_chapters_as_text Map.empty [\<lparr>item_is_document = True, item_text = '' ''\<rparr>]) = 0"
  by (simp add: literally_nonempty_def literal_merge_events_def save_chapters_as_text_def
      seg_init_def save_item_def Let_def strip_def py_isspace_def)

section \<open>Sort keys of the chapter artifacts\<close>

lemma takeWhile_digits_run:
  "list_all is_digit ds \<Longrightarrow> \<not> is_digit c \<Longrightarrow> takeWhile is_digit (ds @ c # rest) = ds"
  by (simp add: list_all_iff)

lemma dropWhile_digits_run:
  "list_all is_digit ds \<Longrightarrow> \<not> is_digit c \<Longrightarrow> dropWhile is_digit (ds @ c # rest) = c # rest"
  by (simp add: list_all_iff)

lemma findall_digits_run:
  assumes "ds \<noteq> []" "list_all is_digit ds" "\<not> is_digit c"
  shows "findall_digits (ds @ c # rest) = ds # findall_digits (c # rest)"
proof -
  obtain d ds' where ds: "ds = d # ds'" using assms(1) by (cases ds) auto
  have d: "is_digit d" using assms(2) ds by simp
  have "findall_digits (d # (ds' @ c # rest))
          = takeWhile is_digit (ds @ c # rest) # findall_digits (dropWhile is_digit (ds @ c # rest))"
    using d by (simp only: findall_digits.simps ds append_Cons if_True)
  then show ?thesis
    using assms by (simp add: ds takeWhile_digits_run dropWhile_digits_run del: findall_digits.simps)
qed

lemma not_digit_dot: "\<not> is_digit (CHR ''.'')"
  by (simp add: is_digit_def)

lemma sort_key_txt_chapter_name: "sort_key_txt (chapter_name n) = n"
proof -
  have "match_chapter_txt (''chapter_'' @ str_nat n @ ''.txt'') = Some (str_nat n)"
    using takeWhile_digits_run[OF str_nat_digits not_digit_dot, of n "''txt''"]
      dropWhile_digits_run[OF str_nat_digits not_digit_dot, of n "''txt''"]
    by (simp add: match_chapter_txt_def str_nat_nonempty)
  then have "search_chapter_txt (chapter_name n) = Some (str_nat n)"
    by (simp add: chapter_name_def)
  then show ?thesis by (simp add: sort_key_txt_def int_of_digits_str_nat)
qed

lemma audio_chapter_path_eq:
  "audio_chapter_path n = ''./Chapter_wav_files/audio_chapter_'' @ str_nat n @ ''.wav''"
  by (simp add: audio_chapter_path_def output_audio_directory_def audio_chapter_name_def
      path_join_def startswith_def endswith_def)

lemma sort_key_wav_audio_chapter_path: "sort_key_wav (audio_chapter_path n) = n"
proof -
  have "findall_digits (str_nat n @ ''.wav'') = str_nat n # findall_digits ''.wav''"
    using findall_digits_run[OF str_nat_nonempty str_nat_digits not_digit_dot, of n "''wav''"]
    by simp
  then have "findall_digits (audio_chapter_path n) = [str_nat n]"
    by (simp add: audio_chapter_path_eq is_digit_def)
  then show ?thesis by (simp add: sort_key_wav_def int_of_digits_str_nat)
qed

lemma endswith_txt: "endswith (chapter_name n) ''.txt''"
  by (simp add: endswith_def chapter_name_def)

lemma endswith_wav: "endswith (audio_chapter_name n) ''.wav''"
  by (simp add: endswith_def audio_chapter_name_def)

lemma sorted_positions:
  assumes "sorted (map key out)" "p < length out" "q < length out" "key (out ! p) < key (out ! q)"
  shows "p < q"
proof (rule ccontr)
  assume "\<not> p < q"
  then have "q \<le> p" by simp
  then have "map key out ! q \<le> map key out ! p"
    using assms(1,2) by (simp add: sorted_iff_nth_mono)
  then show False using assms(2,3,4) by simp
qed

lemma str_nat_2: "str_nat 2 = ''2''"
  using str_nat_digit[of 2] by (simp add: digit_char_numerals)

lemma str_nat_10: "str_nat 10 = ''10''"
proof -
  have "str_nat 10 = str_nat 1 @ [digit_char 0]"
    by (subst str_nat.simps) simp
  then show ?thesis using str_nat_1 by (simp add: digit_char_numerals)
qed

lemma sorted_txt_pair:
  "i < j \<Longrightarrow> sorted_txt_files [(chapter_name j, b), (chapter_name i, a)]
            = [(chapter_name i, a), (chapter_name j, b)]"
  by (simp add: sorted_txt_files_def endswith_txt sort_key_txt_chapter_name)

lemma path_join_audio: "path_join output_audio_directory (audio_chapter_name n) = audio_chapter_path n"
  by (simp add: audio_chapter_path_def)

lemma chapter_files_pair:
  "i < j \<Longrightarrow> chapter_files_sorted output_audio_directory [audio_chapter_name j, audio_chapter_name i]
            = [audio_chapter_path i, audio_chapter_path j]"
  by (simp add: chapter_files_sorted_def endswith_wav path_join_audio
      sort_key_wav_audio_chapter_path)

lemma sorted_txt_keys: "sorted (map (\<lambda>e. sort_key_txt (fst e)) (sorted_txt_files folder))"
  by (simp add: sorted_txt_files_def)

lemma sorted_wav_keys: "sorted (map sort_key_wav (chapter_files_sorted d listing))"
  by (simp add: chapter_files_sorted_def)

lemma set_sorted_txt:
  "set (sorted_txt_files folder) = {e \<in> set folder. endswith (fst e) ''.txt''}"
  by (simp add: sorted_txt_files_def)

lemma txt_positions:
  assumes "p < length (sorted_txt_files folder)" "q < length (sorted_txt_files folder)"
    "fst (sorted_txt_files folder ! p) = chapter_name i"
    "fst (sorted_txt_files folder ! q) = chapter_name j" "i < j"
  shows "p < q"
  using sorted_positions[OF sorted_txt_keys assms(1,2)] assms(3,4,5)
  by (simp add: sort_key_txt_chapter_name)

lemma wav_positions:
  assumes "p < length (chapter_files_sorted d listing)"
    "q < length (chapter_files_sorted d listing)"
    "chapter_files_sorted d listing ! p = audio_chapter_path i"
    "chapter_files_sorted d listing ! q = audio_chapter_path j" "i < j"
  shows "p < q"
  using sorted_positions[OF sorted_wav_keys assms(1,2)] assms(3,4,5)
  by (simp add: sort_key_wav_audio_chapter_path)

lemma combine_chapters_pair:
  "i < j \<Longrightarrow> combine_chapters [(chapter_name j, b), (chapter_name i, a)]
              = a @ nl @ ''NEWCHAPTERABC'' @ nl @ b"
  by (simp add: combine_chapters_def sorted_txt_pair)

lemma combine_wav_pair:
  "i < j \<Longrightarrow> combine_wav_files from_wav
          (chapter_files_sorted output_audio_directory [audio_chapter_name j, audio_chapter_name i])
          = from_wav (audio_chapter_path i) @ from_wav (audio_chapter_path j)"
  by (simp add: combine_wav_files_def chapter_files_pair)

lemma write_combined_join:
  "write_combined (i + length xs) i xs = join_with chapter_break (map snd xs)"
proof (induction xs arbitrary: i)
  case Nil
  show ?case by simp
next
  case (Cons e rest)
  show ?case
  proof (cases rest)
    case Nil
    then show ?thesis by simp
  next
    case (Cons y ys)
    have "write_combined (Suc i + length rest) (Suc i) rest = join_with chapter_break (map snd rest)"
      by (rule Cons.IH)
    then show ?thesis using Cons by (simp add: chapter_break_def)
  qed
qed

lemma combine_chapters_join:
  "combine_chapters folder = join_with chapter_break (map snd (sorted_txt_files folder))"
  using write_combined_join[of 0 "sorted_txt_files folder"]
  by (simp add: combine_chapters_def Let_def)

lemma combine_wav_files_from:
  "fold (\<lambda>chapter_file combined_audio. combined_audio @ from_wav chapter_file) fs acc
     = acc @ concat (map from_wav fs)"
  by (induction fs arbitrary: acc) simp_all

lemma combine_wav_files_concat: "combine_wav_files from_wav fs = concat (map from_wav fs)"
  by (simp add: combine_wav_files_def combine_wav_files_from)

lemma mset_sorted_txt:
  "mset (sorted_txt_files folder) = mset (filter (\<lambda>e. endswith (fst e) ''.txt'') folder)"
  by (simp add: sorted_txt_files_def)

lemma mset_chapter_files:
  "mset (chapter_files_sorted d listing)
     = mset (map (path_join d) (filter (\<lambda>f. endswith f ''.wav'') listing))"
  by (simp add: chapter_files_sorted_def)

lemma stable_sorted_txt:
  "filter (\<lambda>e. sort_key_txt (fst e) = k) (sorted_txt_files folder)
     = filter (\<lambda>e. sort_key_txt (fst e) = k) (filter (\<lambda>e. endswith (fst e) ''.txt'') folder)"
  unfolding sorted_txt_files_def by (rule sort_key_stable)

lemma stable_chapter_files:
  "filter (\<lambda>f. sort_key_wav f = k) (chapter_files_sorted d listing)
     = filter (\<lambda>f. sort_key_wav f = k)
         (map (path_join d) (filter (\<lambda>f. endswith f ''.wav'') listing))"
  unfolding chapter_files_sorted_def by (rule sort_key_stable)

lemma sorted_txt_three:
  "sorted_txt_files [(''chapter_10.txt'', ''ten''), (''chapter_2.txt'', ''two''),
                     (''chapter_1.txt'', ''one'')]
     = [(''chapter_1.txt'', ''one''), (''chapter_2.txt'', ''two''), (''chapter_10.txt'', ''ten'')]"
proof -
  have k: "sort_key_txt ''chapter_10.txt'' = 10" "sort_key_txt ''chapter_2.txt'' = 2"
    "sort_key_txt ''chapter_1.txt'' = 1"
    using sort_key_txt_chapter_name[of 10] sort_key_txt_chapter_name[of 2]
      sort_key_txt_chapter_name[of 1]
    by (simp_all add: chapter_name_def str_nat_10 str_nat_2 str_nat_1)
  show ?thesis by (simp add: sorted_txt_files_def endswith_def k)
qed

section \<open>Assembly order\<close>

text \<open>
  Claim C6. Both assemblies order the chapter artifacts by the number found in the file
  name by pattern match, and concatenate them in that order. The text files that
  \<^verbatim>\<open>combine_chapters\<close> writes and the audio files that \<^verbatim>\<open>create_m4b_from_chapters\<close>
  combines are the files of the listing with the right extension, each as often as
  listed, in an order of non-decreasing keys that keeps the listing order among equal
  keys; the flat text is their contents in that order with the chapter break between
  neighbours, the combined audio is their audio in that order. The key of
  \<^verbatim>\<open>chapter_<n>.txt\<close> and of \<^verbatim>\<open>audio_chapter_<n>.wav\<close> is \<open>n\<close>, so for \<open>i < j\<close> the file of
  chapter \<open>i\<close> stands before the file of chapter \<open>j\<close> wherever the listing had them.
\<close>

theorem assembled_in_numeric_order:
  "sorted (map (\<lambda>e. sort_key_txt (fst e)) (sorted_txt_files folder))
   \<and> set (sorted_txt_files folder) = {e \<in> set folder. endswith (fst e) ''.txt''}
   \<and> sorted (map sort_key_wav (chapter_files_sorted input_dir listing))
   \<and> sort_key_txt (chapter_name n) = n
   \<and> sort_key_wav (audio_chapter_path n) = n
   \<and> (\<forall>p q. p < length (sorted_txt_files folder) \<and> q < length (sorted_txt_files folder)
         \<and> fst (sorted_txt_files folder ! p) = chapter_name i
         \<and> fst (sorted_txt_files folder ! q) = chapter_name j \<and> i < j \<longrightarrow> p < q)
   \<and> (\<forall>p q. p < length (chapter_files_sorted input_dir listing)
         \<and> q < length (chapter_files_sorted input_dir listing)
         \<and> chapter_files_sorted input_dir listing ! p = audio_chapter_path i
         \<and> chapter_files_sorted input_dir listing ! q = audio_chapter_path j
         \<and> i < j \<longrightarrow> p < q)
   \<and> (i < j \<longrightarrow>
        combine_chapters [(chapter_name j, b), (chapter_name i, a)]
          = a @ nl @ ''NEWCHAPTERABC'' @ nl @ b)
   \<and> (i < j \<longrightarrow>
        combine_wav_files from_wav
          (chapter_files_sorted output_audio_directory [audio_chapter_name j, audio_chapter_name i])
          = from_wav (audio_chapter_path i) @ from_wav (audio_chapter_path j))
   \<and> mset (sorted_txt_files folder) = mset (filter (\<lambda>e. endswith (fst e) ''.txt'') folder)
   \<and> mset (chapter_files_sorted input_dir listing)
       = mset (map (path_join input_dir) (filter (\<lambda>f. endswith f ''.wav'') listing))
   \<and> filter (\<lambda>e. sort_key_txt (fst e) = k) (sorted_txt_files folder)
       = filter (\<lambda>e. sort_key_txt (fst e) = k) (filter (\<lambda>e. endswith (fst e) ''.txt'') folder)
   \<and> filter (\<lambda>f. sort_key_wav f = k) (chapter_files_sorted input_dir listing)
       = filter (\<lambda>f. sort_key_wav f = k)
           (map (path_join input_dir) (filter (\<lambda>f. endswith f ''.wav'') listing))
   \<and> combine_chapters folder = join_with chapter_break (map snd (sorted_txt_files folder))
   \<and> chapter_break = nl @ ''NEWCHAPTERABC'' @ nl
   \<and> combine_wav_files from_wav (chapter_files_sorted input_dir listing)
       = concat (map from_wav (chapter_files_sorted input_dir listing))"
proof (intro conjI allI impI)
  show "mset (sorted_txt_files folder) = mset (filter (\<lambda>e. endswith (fst e) ''.txt'') folder)"
    by (rule mset_sorted_txt)
  show "mset (chapter_files_sorted input_dir listing)
       = mset (map (path_join input_dir) (filter (\<lambda>f. endswith f ''.wav'') listing))"
    by (rule mset_chapter_files)
  show "filter (\<lambda>e. sort_key_txt (fst e) = k) (sorted_txt_files folder)
       = filter (\<lambda>e. sort_key_txt (fst e) = k) (filter (\<lambda>e. endswith (fst e) ''.txt'') folder)"
    by (rule stable_sorted_txt)
  show "filter (\<lambda>f. sort_key_wav f = k) (chapter_files_sorted input_dir listing)
       = filter (\<lambda>f. sort_key_wav f = k)
           (map (path_join input_dir) (filter (\<lambda>f. endswith f ''.wav'') listing))"
    by (rule stable_chapter_files)
  show "combine_chapters folder = join_with chapter_break (map snd (sorted_txt_files folder))"
    by (rule combine_chapters_join)
  show "chapter_break = nl @ ''NEWCHAPTERABC'' @ nl"
    by (rule chapter_break_def)
  show "combine_wav_files from_wav (chapter_files_sorted input_dir listing)
       = concat (map from_wav (chapter_files_sorted input_dir listing))"
    by (rule combine_wav_files_concat)
  show "sorted (map (\<lambda>e. sort_key_txt (fst e)) (sorted_txt_files folder))"
    by (rule sorted_txt_keys)
  show "set (sorted_txt_files folder) = {e \<in> set folder. endswith (fst e) ''.txt''}"
    by (rule set_sorted_txt)
  show "sorted (map sort_key_wav (chapter_files_sorted input_dir listing))"
    by (rule sorted_wav_keys)
  show "sort_key_txt (chapter_name n) = n"
    by (rule sort_key_txt_chapter_name)
  show "sort_key_wav (audio_chapter_path n) = n"
    by (rule sort_key_wav_audio_chapter_path)
next
  fix p q
  assume "p < length (sorted_txt_files folder) \<and> q < length (sorted_txt_files folder)
         \<and> fst (sorted_txt_files folder ! p) = chapter_name i
         \<and> fst (sorted_txt_files folder ! q) = chapter_name j \<and> i < j"
  then show "p < q" using txt_positions[of p folder q i j] by blast
next
  fix p q
  assume "p < length (chapter_files_sorted input_dir listing)
         \<and> q < length (chapter_files_sorted input_dir listing)
         \<and> chapter_files_sorted input_dir listing ! p = audio_chapter_path i
         \<and> chapter_files_sorted input_dir listing ! q = audio_chapter_path j
         \<and> i < j"
  then show "p < q" using wav_positions[of p input_dir listing q i j] by blast
next
  assume "i < j"
  then show "combine_chapters [(chapter_name j, b), (chapter_name i, a)]
          = a @ nl @ ''NEWCHAPTERABC'' @ nl @ b"
    by (rule combine_chapters_pair)
next
  assume "i < j"
  then show "combine_wav_files from_wav
          (chapter_files_sorted output_audio_directory [audio_chapter_name j, audio_chapter_name i])
          = from_wav (audio_chapter_path i) @ from_wav (audio_chapter_path j)"
    by (rule combine_wav_pair)
qed

lemma names_10_2:
  "chapter_name 10 = ''chapter_10.txt''" "chapter_name 2 = ''chapter_2.txt''"
  "audio_chapter_name 10 = ''audio_chapter_10.wav''"
  "audio_chapter_name 2 = ''audio_chapter_2.wav''"
  "audio_chapter_path 10 = ''./Chapter_wav_files/audio_chapter_10.wav''"
  "audio_chapter_path 2 = ''./Chapter_wav_files/audio_chapter_2.wav''"
  by (simp_all add: chapter_name_def audio_chapter_name_def audio_chapter_path_eq str_nat_10
      str_nat_2)

lemma output_audio_directory_eq: "output_audio_directory = ''./Chapter_wav_files''"
  by (simp add: output_audio_directory_def path_join_def startswith_def endswith_def)

text \<open>
  The theorem at chapters 1, 2 and 10, listed in the order 10, 2, 1: the flat text has
  them in the order 1, 2, 10, and \<^verbatim>\<open>chapter_10.txt\<close> is assembled after \<^verbatim>\<open>chapter_2.txt\<close>,
  although it sorts first as a string.
\<close>

theorem assembled_in_numeric_order_witness:
  "(2::nat) < 10
   \<and> combine_chapters [(''chapter_10.txt'', ''ten''), (''chapter_2.txt'', ''two'')]
       = ''two'' @ nl @ ''NEWCHAPTERABC'' @ nl @ ''ten''
   \<and> combine_wav_files (\<lambda>f. f)
        (chapter_files_sorted ''./Chapter_wav_files'' [''audio_chapter_10.wav'', ''audio_chapter_2.wav''])
       = ''./Chapter_wav_files/audio_chapter_2.wav'' @ ''./Chapter_wav_files/audio_chapter_10.wav''
   \<and> combine_chapters [(''chapter_10.txt'', ''ten''), (''chapter_2.txt'', ''two''),
                        (''chapter_1.txt'', ''one'')]
       = ''one'' @ nl @ ''NEWCHAPTERABC'' @ nl @ ''two'' @ nl @ ''NEWCHAPTERABC'' @ nl @ ''ten''"
proof -
  have lt: "(2::nat) < 10" by simp
  note th = assembled_in_numeric_order[of "[]" "[]" "[]" 0 2 10 "''ten''" "''two''" "\<lambda>f. f" 0]
  have comb: "combine_chapters [(chapter_name 10, ''ten''), (chapter_name 2, ''two'')]
          = ''two'' @ nl @ ''NEWCHAPTERABC'' @ nl @ ''ten''"
    using th lt by (elim conjE) (erule (1) impE[rotated], assumption)
  have wav: "combine_wav_files (\<lambda>f. f)
          (chapter_files_sorted output_audio_directory [audio_chapter_name 10, audio_chapter_name 2])
          = audio_chapter_path 2 @ audio_chapter_path 10"
    using th lt by (elim conjE) fast
  note th3 = assembled_in_numeric_order[of
      "[(''chapter_10.txt'', ''ten''), (''chapter_2.txt'', ''two''), (''chapter_1.txt'', ''one'')]"
      "[]" "[]" 0 2 10 "''ten''" "''two''" "\<lambda>f. f" 0]
  have "combine_chapters [(''chapter_10.txt'', ''ten''), (''chapter_2.txt'', ''two''),
                          (''chapter_1.txt'', ''one'')]
        = join_with chapter_break (map snd (sorted_txt_files
            [(''chapter_10.txt'', ''ten''), (''chapter_2.txt'', ''two''),
             (''chapter_1.txt'', ''one'')]))"
    using th3 by (elim conjE)
  then have three: "combine_chapters [(''chapter_10.txt'', ''ten''), (''chapter_2.txt'', ''two''),
                          (''chapter_1.txt'', ''one'')]
       = ''one'' @ nl @ ''NEWCHAPTERABC'' @ nl @ ''two'' @ nl @ ''NEWCHAPTERABC'' @ nl @ ''ten''"
    by (simp add: sorted_txt_three chapter_break_def)
  show ?thesis
    using lt comb wav three unfolding names_10_2 output_audio_directory_eq by (intro conjI)
qed

section \<open>Final muxing\<close>


lemma dirname_no_directory: "dirname ''book.m4b'' = []"
  by (simp add: dirname_def)

lemma create_m4b_no_directory:
  "create_m4b mkdir rc combined_wav metadata_file cover_image ''book.m4b''
     = Inl (FileNotFoundError [])"
  by (simp add: create_m4b_def makedirs_def dirname_no_directory)


section \<open>Per-sentence synthesis\<close>






























section \<open>Sentence offsets\<close>

lemma occurs_at_0: "occurs_at text sub 0 = (take (length sub) text = sub)"
proof
  assume "occurs_at text sub 0"
  then show "take (length sub) text = sub" by (simp add: occurs_at_def)
next
  assume t: "take (length sub) text = sub"
  then have "length (take (length sub) text) = length sub" by simp
  then have "length sub \<le> length text" by simp
  then show "occurs_at text sub 0" using t by (simp add: occurs_at_def)
qed

lemma occurs_at_Suc: "occurs_at (c # cs) sub (Suc j) = occurs_at cs sub j"
  by (simp add: occurs_at_def)

lemma occurs_at_Nil: "occurs_at [] sub j = (sub = [] \<and> j = 0)"
  by (auto simp: occurs_at_def)

lemma find_from_first:
  "occurs_at t sub j \<Longrightarrow>
     \<exists>m\<le>j. find_from i sub t = int (i + m) \<and> occurs_at t sub m
            \<and> (\<forall>j'<m. \<not> occurs_at t sub j')"
proof (induction t arbitrary: i j)
  case Nil
  then show ?case by (simp add: occurs_at_Nil)
next
  case (Cons c cs)
  show ?case
  proof (cases "take (length sub) (c # cs) = sub")
    case True
    then have "find_from i sub (c # cs) = int (i + 0)" by simp
    moreover have "occurs_at (c # cs) sub 0"
      using True occurs_at_0[of "c # cs" sub] by blast
    ultimately show ?thesis by blast
  next
    case False
    then have no0: "\<not> occurs_at (c # cs) sub 0"
      using occurs_at_0[of "c # cs" sub] by blast
    then obtain j' where j: "j = Suc j'" using Cons.prems by (cases j) auto
    then have "occurs_at cs sub j'" using Cons.prems by (simp add: occurs_at_Suc)
    from Cons.IH[OF this, of "i + 1"] obtain m where
      m: "m \<le> j'" "find_from (i + 1) sub cs = int (i + 1 + m)" "occurs_at cs sub m"
         "\<forall>j'<m. \<not> occurs_at cs sub j'"
      by blast
    have f: "find_from i sub (c # cs) = int (i + Suc m)" using False m(2) by simp
    have o: "occurs_at (c # cs) sub (Suc m)" using m(3) by (simp add: occurs_at_Suc)
    have least: "\<not> occurs_at (c # cs) sub k" if "k < Suc m" for k
    proof (cases k)
      case 0
      then show ?thesis using no0 by simp
    next
      case (Suc k')
      then show ?thesis using that m(4) by (simp add: occurs_at_Suc)
    qed
    show ?thesis using f o least m(1) j by (intro exI[of _ "Suc m"]) simp
  qed
qed

lemma find_from_none: "(\<forall>j. \<not> occurs_at t sub j) \<Longrightarrow> find_from i sub t = - 1"
proof (induction t arbitrary: i)
  case Nil
  then show ?case using occurs_at_Nil[of sub 0] by auto
next
  case (Cons c cs)
  have "take (length sub) (c # cs) \<noteq> sub" using Cons.prems occurs_at_0[of "c # cs" sub] by blast
  moreover have "\<forall>j. \<not> occurs_at cs sub j"
    using Cons.prems occurs_at_Suc[of c cs sub] by blast
  ultimately show ?case using Cons.IH by simp
qed

lemma py_find_first:
  assumes "occurs_at text sub j"
  shows "0 \<le> py_find text sub \<and> occurs_at text sub (nat (py_find text sub))
         \<and> (\<forall>j' < nat (py_find text sub). \<not> occurs_at text sub j')"
proof -
  from find_from_first[OF assms, of 0] obtain m where
    "py_find text sub = int m" "occurs_at text sub m" "\<forall>j'<m. \<not> occurs_at text sub j'"
    unfolding py_find_def by auto
  then show ?thesis by simp
qed

lemma py_find_none: "(\<forall>j. \<not> occurs_at text sub j) \<Longrightarrow> py_find text sub = - 1"
  unfolding py_find_def by (rule find_from_none)

lemma process_chapter_text_rows:
  "r \<in> set (process_chapter_text tok raw n) \<Longrightarrow>
     row_start r = py_find (marked_text raw) (row_text r)
     \<and> row_end r = row_start r + int (length (row_text r))"
  by (auto simp: process_chapter_text_def Let_def)

lemma process_chapter_text_sentences:
  "map row_text (process_chapter_text tok raw n) = tok (marked_text raw)"
  by (simp add: process_chapter_text_def Let_def comp_def)

text \<open>
  Claim C9, as amended. The sentences of a chapter are those the tokenizer finds in the
  marked text, which is the raw text of the file behind the marker \<^verbatim>\<open>NEWCHAPTERABC\<close>
  when the file is not empty. For every row written, the start offset is the result of
  the first-match search of the sentence in the marked text: the lowest index at which
  the sentence occurs there, and -1 when it does not occur; the end offset is the start
  plus the length of the sentence.
\<close>

theorem offsets_in_marked_text:
  "map row_text (process_chapter_text tok raw n) = tok (marked_text raw)
   \<and> (raw \<noteq> [] \<longrightarrow> marked_text raw = ''NEWCHAPTERABC'' @ raw)
   \<and> (\<forall>r \<in> set (process_chapter_text tok raw n).
         row_start r = py_find (marked_text raw) (row_text r)
         \<and> row_end r = row_start r + int (length (row_text r))
         \<and> ((\<exists>j. occurs_at (marked_text raw) (row_text r) j) \<longrightarrow>
              0 \<le> row_start r
              \<and> occurs_at (marked_text raw) (row_text r) (nat (row_start r))
              \<and> (\<forall>j < nat (row_start r). \<not> occurs_at (marked_text raw) (row_text r) j))
         \<and> ((\<forall>j. \<not> occurs_at (marked_text raw) (row_text r) j) \<longrightarrow> row_start r = - 1))"
proof (intro conjI ballI impI)
  show "map row_text (process_chapter_text tok raw n) = tok (marked_text raw)"
    by (rule process_chapter_text_sentences)
next
  assume "raw \<noteq> []"
  then show "marked_text raw = ''NEWCHAPTERABC'' @ raw" by (simp add: marked_text_def)
next
  fix r assume r: "r \<in> set (process_chapter_text tok raw n)"
  note rows = process_chapter_text_rows[OF r]
  show "row_start r = py_find (marked_text raw) (row_text r)" using rows by blast
  show "row_end r = row_start r + int (length (row_text r))" using rows by blast
  {
    assume "\<exists>j. occurs_at (marked_text raw) (row_text r) j"
    then obtain j where "occurs_at (marked_text raw) (row_text r) j" by blast
    note first = py_find_first[OF this]
    show "0 \<le> row_start r" using first rows by simp
    show "occurs_at (marked_text raw) (row_text r) (nat (row_start r))" using first rows by simp
    show "\<forall>j < nat (row_start r). \<not> occurs_at (marked_text raw) (row_text r) j"
      using first rows by simp
  }
  {
    assume "\<forall>j. \<not> occurs_at (marked_text raw) (row_text r) j"
    then show "row_start r = - 1" using py_find_none rows by simp
  }
qed

lemma example_rows:
  "process_chapter_text two_sentences ''Hello. World.'' 3
     = [\<lparr>row_text = ''NEWCHAPTERABCHello.'', row_start = 0, row_end = 19,
         row_is_quote = ''True'', row_speaker = ''Narrator'', row_chapter = 3\<rparr>,
        \<lparr>row_text = ''World.'', row_start = 20, row_end = 26,
         row_is_quote = ''True'', row_speaker = ''Narrator'', row_chapter = 3\<rparr>]"
  by (simp add: process_chapter_text_def marked_text_def two_sentences_def py_find_def Let_def)

text \<open>
  The theorem at the chapter text "Hello. World.": its second sentence is found in the
  marked text at index 20, and not at index 7, where it stands in the raw text.
\<close>

theorem offsets_in_marked_text_witness:
  "occurs_at (marked_text ''Hello. World.'') ''World.'' 20
   \<and> \<not> occurs_at (marked_text ''Hello. World.'') ''World.'' 7
   \<and> py_find (marked_text ''Hello. World.'') ''World.'' = 20"
proof -
  let ?r = "\<lparr>row_text = ''World.'', row_start = 20, row_end = 26,
         row_is_quote = ''True'', row_speaker = ''Narrator'', row_chapter = 3\<rparr>"
  have mem: "?r \<in> set (process_chapter_text two_sentences ''Hello. World.'' 3)"
    by (simp add: example_rows)
  have occ: "occurs_at (marked_text ''Hello. World.'') ''World.'' 20"
    by (simp add: occurs_at_def marked_text_def)
  then have ex: "\<exists>j. occurs_at (marked_text ''Hello. World.'') (row_text ?r) j"
    by auto
  have "\<forall>r \<in> set (process_chapter_text two_sentences ''Hello. World.'' 3).
          row_start r = py_find (marked_text ''Hello. World.'') (row_text r)
          \<and> ((\<exists>j. occurs_at (marked_text ''Hello. World.'') (row_text r) j) \<longrightarrow>
              (\<forall>j < nat (row_start r). \<not> occurs_at (marked_text ''Hello. World.'') (row_text r) j))"
    using offsets_in_marked_text[of two_sentences "''Hello. World.''" 3] by blast
  from this[rule_format, OF mem]
  have found: "py_find (marked_text ''Hello. World.'') ''World.'' = 20"
    and least: "\<forall>j < 20. \<not> occurs_at (marked_text ''Hello. World.'') ''World.'' j"
    using ex by simp_all
  from least have "\<not> occurs_at (marked_text ''Hello. World.'') ''World.'' 7" by simp
  then show ?thesis using occ found by simp
qed

text \<open>
  Claim C9 as stated fails: for the chapter text "Hello. World." the recorded start of
  "World." is 20, while its first occurrence in the raw text is at index 7; and the
  first sentence, which carries the marker, does not occur in the raw text at all.
\<close>

theorem offsets_not_in_raw_text_counterexample:
  "map row_text (process_chapter_text two_sentences ''Hello. World.'' 3)
     = [''NEWCHAPTERABCHello.'', ''World.'']
   \<and> map row_start (process_chapter_text two_sentences ''Hello. World.'' 3) = [0, 20]
   \<and> py_find ''Hello. World.'' ''NEWCHAPTERABCHello.'' = - 1
   \<and> py_find ''Hello. World.'' ''World.'' = 7"
  by (simp add: example_rows) (simp add: py_find_def)

section \<open>Single-file conversion\<close>

lemma run_piped_ran:
  "pipe_actions (run_piped cmd_speak cmd_encoder (Pipe_Ran p))
     = [Popen Speak cmd_speak, Popen Encoder cmd_encoder, Close_Stdout Speak,
        Communicate Encoder, Read_Stderr Speak, Wait Speak, Close_Stderr Speak]
   \<and> pipe_result (run_piped cmd_speak cmd_encoder (Pipe_Ran p))
     = (if encoder_returncode p \<noteq> 0 then
          Inl (CalledProcessError (encoder_returncode p) cmd_encoder
                 (Some (encoder_stdout p)) (Some (encoder_stderr p)))
        else if speak_returncode p \<noteq> 0 then
          Inl (CalledProcessError (speak_returncode p) cmd_speak None (Some (speak_stderr p)))
        else Inr ())"
  by (simp add: run_piped_def)

lemma run_piped_success:
  "pipe_result (run_piped cmd_speak cmd_encoder outcome) = Inr () \<Longrightarrow>
     \<exists>p. outcome = Pipe_Ran p \<and> speak_returncode p = 0 \<and> encoder_returncode p = 0"
  by (cases outcome) (auto simp: run_piped_def split: if_splits)

lemma generate_audio_piped:
  assumes "output_format = ''mp3'' \<or> output_format = ''ogg''"
  shows "\<exists>cmd_speak cmd_encoder.
           audio_result (generate_audio voice txt_path audio_path output_format w)
             = pipe_result (run_piped cmd_speak cmd_encoder (espeak_pipe w))
           \<and> audio_actions (generate_audio voice txt_path audio_path output_format w)
             = pipe_actions (run_piped cmd_speak cmd_encoder (espeak_pipe w))
           \<and> cmd_speak = [''espeak-ng'', ''-v'', voice, ''-f'', txt_path, ''--stdout'']
           \<and> cmd_encoder = (if output_format = ''mp3'' then [''lame'', ''-'', audio_path]
                            else [''oggenc'', ''-o'', audio_path, ''-''])"
  using assms by (auto simp: generate_audio_def Let_def)

lemma convert_to_txt_ok: "(convert_to_txt cmd w = Inr ()) = normalized w"
  by (auto simp: convert_to_txt_def normalized_def exited_zero_def subprocess_run_def
      raise_start_error_def split: run_outcome.splits start_error.splits)

lemma convert_to_txt_error:
  "\<not> convert_handler_slips w \<Longrightarrow> convert_to_txt cmd w = Inl e \<Longrightarrow> is_conversion_error (Inl e)"
  by (auto simp: convert_to_txt_def is_conversion_error_def subprocess_run_def
      convert_handler_slips_def failed_with_stderr_def raise_start_error_def
      split: run_outcome.splits start_error.splits if_splits)

lemma audio_error_not_conversion: "\<not> is_conversion_error (Inl (audio_error e))"
  by (cases e) (simp_all add: audio_error_def is_conversion_error_def)

lemma generate_audio_ok:
  "audio_commands_exit_zero output_format w \<Longrightarrow>
     audio_result (generate_audio voice txt_path audio_path output_format w) = Inr ()"
  by (auto simp: audio_commands_exit_zero_def generate_audio_def Let_def exited_zero_def
      subprocess_run_def run_piped_def split: if_splits run_outcome.splits pipe_outcome.splits)

lemma steps_return_normalized:
  assumes "normalized w"
  shows "app_return (convert_steps w inp tmp base voice fmt)
           = (case audio_result (generate_audio voice (path_join tmp (base @ ''.txt''))
                                   (path_join tmp (base @ ''.'' @ fmt)) fmt w) of
                Inl e \<Rightarrow> Inl (audio_error e)
              | Inr _ \<Rightarrow> if \<not> audio_exists w \<or> audio_size w < 1024
                         then Inl Audio_Missing_Or_Too_Small
                         else Inr (path_join tmp (base @ ''.'' @ fmt)))"
proof -
  have "convert_to_txt [''ebook-convert'', inp, path_join tmp (base @ ''.txt''),
          ''--enable-heuristics''] w = Inr ()"
    using assms by (simp only: convert_to_txt_ok)
  then show ?thesis
    by (auto simp: convert_steps_def Let_def split: sum.splits)
qed

lemma steps_commands_normalized:
  assumes "normalized w"
  shows "app_commands (convert_steps w inp tmp base voice fmt)
           = [''ebook-convert'', inp, path_join tmp (base @ ''.txt''), ''--enable-heuristics'']
             # audio_commands (generate_audio voice (path_join tmp (base @ ''.txt''))
                                 (path_join tmp (base @ ''.'' @ fmt)) fmt w)"
proof -
  have "convert_to_txt [''ebook-convert'', inp, path_join tmp (base @ ''.txt''),
          ''--enable-heuristics''] w = Inr ()"
    using assms by (simp only: convert_to_txt_ok)
  then show ?thesis by (simp add: convert_steps_def Let_def)
qed

lemma steps_not_normalized:
  assumes "\<not> normalized w"
  shows "app_commands (convert_steps w inp tmp base voice fmt)
           = [[''ebook-convert'', inp, path_join tmp (base @ ''.txt''), ''--enable-heuristics'']]
         \<and> (\<exists>e. app_return (convert_steps w inp tmp base voice fmt) = Inl e)
         \<and> (\<not> convert_handler_slips w \<longrightarrow>
              is_conversion_error (app_return (convert_steps w inp tmp base voice fmt)))"
proof -
  let ?cmd = "[''ebook-convert'', inp, path_join tmp (base @ ''.txt''), ''--enable-heuristics'']"
  have "convert_to_txt ?cmd w \<noteq> Inr ()"
    using assms by (simp only: convert_to_txt_ok not_False_eq_True)
  then obtain e where e: "convert_to_txt ?cmd w = Inl e"
    by (cases "convert_to_txt ?cmd w") auto
  have "\<not> convert_handler_slips w \<Longrightarrow> is_conversion_error (Inl e)"
    using e by (rule convert_to_txt_error[rotated])
  then show ?thesis
    using e by (simp add: convert_steps_def Let_def)
qed

lemma steps_normalized_no_conversion_error:
  assumes "normalized w"
  shows "\<not> is_conversion_error (app_return (convert_steps w inp tmp base voice fmt))"
proof (cases "audio_result (generate_audio voice (path_join tmp (base @ ''.txt''))
                                   (path_join tmp (base @ ''.'' @ fmt)) fmt w)")
  case (Inl e)
  then have "app_return (convert_steps w inp tmp base voice fmt) = Inl (audio_error e)"
    by (simp add: steps_return_normalized[OF assms])
  then show ?thesis by (simp only: audio_error_not_conversion not_False_eq_True)
next
  case (Inr u)
  then show ?thesis
    by (simp add: steps_return_normalized[OF assms] is_conversion_error_def)
qed

lemma steps_success:
  "app_return (convert_steps w inp tmp base voice fmt) = Inr path \<Longrightarrow>
     normalized w \<and> audio_exists w \<and> 1024 \<le> audio_size w"
proof -
  assume ok: "app_return (convert_steps w inp tmp base voice fmt) = Inr path"
  have n: "normalized w"
  proof (rule ccontr)
    assume "\<not> normalized w"
    from steps_not_normalized[OF this, of inp tmp base voice fmt] ok show False by auto
  qed
  show ?thesis
    using ok n unfolding steps_return_normalized[OF n]
    by (auto split: sum.splits if_splits)
qed

lemma extract_cover_aborts:
  "(extract_cover cmd w = Inl e) = (failed_with_stderr (ebook_meta w)
      \<and> e = Critical_Unexpected (AttributeError ''decode''))"
  by (auto simp: extract_cover_def failed_with_stderr_def subprocess_run_def
      raise_start_error_def split: run_outcome.splits start_error.splits)

lemma extract_cover_passes:
  "\<not> failed_with_stderr (ebook_meta w) \<Longrightarrow> extract_cover cmd w = Inr ()"
  using extract_cover_aborts[of cmd w] by (cases "extract_cover cmd w") auto

lemma reaches_steps:
  assumes "accepted w" "\<not> cover_step_aborts w"
  shows "app_return (convert_ebook_to_audio w inp tmp base voice fmt)
           = app_return (convert_steps w inp tmp base voice fmt)
         \<and> app_actions (convert_ebook_to_audio w inp tmp base voice fmt)
           = app_actions (convert_steps w inp tmp base voice fmt)
         \<and> app_commands (convert_ebook_to_audio w inp tmp base voice fmt)
           = (if embed_cover w
              then [[''ebook-meta'', inp, ''--get-cover'', path_join tmp ''cover.jpg'']] else [])
             @ app_commands (convert_steps w inp tmp base voice fmt)"
proof (cases "embed_cover w")
  case False
  then show ?thesis using assms(1) by (simp add: convert_ebook_to_audio_def accepted_def)
next
  case True
  then have "\<not> failed_with_stderr (ebook_meta w)"
    using assms(2) by (simp add: cover_step_aborts_def)
  then have "extract_cover [''ebook-meta'', inp, ''--get-cover'', path_join tmp ''cover.jpg''] w
               = Inr ()"
    by (rule extract_cover_passes)
  then show ?thesis
    using True assms(1) by (simp add: convert_ebook_to_audio_def accepted_def Let_def)
qed

lemma cover_abort:
  assumes "accepted w" "cover_step_aborts w"
  shows "app_return (convert_ebook_to_audio w inp tmp base voice fmt)
           = Inl (Critical_Unexpected (AttributeError ''decode''))
         \<and> app_commands (convert_ebook_to_audio w inp tmp base voice fmt)
           = [[''ebook-meta'', inp, ''--get-cover'', path_join tmp ''cover.jpg'']]"
proof -
  have "extract_cover [''ebook-meta'', inp, ''--get-cover'', path_join tmp ''cover.jpg''] w
          = Inl (Critical_Unexpected (AttributeError ''decode''))"
    using assms(2) by (simp add: extract_cover_aborts cover_step_aborts_def)
  then show ?thesis
    using assms by (simp add: convert_ebook_to_audio_def accepted_def cover_step_aborts_def Let_def)
qed

lemma not_accepted:
  "\<not> accepted w \<Longrightarrow>
     (\<exists>e. app_return (convert_ebook_to_audio w inp tmp base voice fmt) = Inl e)
     \<and> app_commands (convert_ebook_to_audio w inp tmp base voice fmt) = []"
  by (auto simp: convert_ebook_to_audio_def accepted_def)

lemma success_reached_steps:
  assumes "app_return (convert_ebook_to_audio w inp tmp base voice fmt) = Inr path"
  shows "accepted w \<and> \<not> cover_step_aborts w
         \<and> app_return (convert_steps w inp tmp base voice fmt) = Inr path"
proof -
  have a: "accepted w" using assms not_accepted[of w inp tmp base voice fmt] by auto
  have c: "\<not> cover_step_aborts w" using assms cover_abort[OF a, of inp tmp base voice fmt] by auto
  show ?thesis using a c assms reaches_steps[OF a c, of inp tmp base voice fmt] by simp
qed

lemma example_world_facts:
  "accepted example_world" "\<not> cover_step_aborts example_world" "normalized example_world"
  "audio_commands_exit_zero ''wav'' example_world"
  "\<not> audio_exists example_world \<or> audio_size example_world < 1024"
  by (simp_all add: example_world_def accepted_def normalized_def exited_zero_def
      audio_commands_exit_zero_def cover_step_aborts_def failed_with_stderr_def)

text \<open>
  Claim C10. In the single-file variant the conversion returns an error in place of the
  audio path whenever the audio file is missing or has fewer than 1024 bytes, whatever
  else happened. In particular, when the request is accepted, the cover step did not
  abort, the text was produced and every audio command of the chosen format exits with
  status 0, the error is the one of the size test; with a file of at least 1024 bytes
  the path is returned.
\<close>

theorem small_audio_rejected:
  "(\<not> audio_exists w \<or> audio_size w < 1024 \<longrightarrow>
      (\<exists>e. app_return (convert_ebook_to_audio w inp tmp base voice fmt) = Inl e))
   \<and> (accepted w \<and> \<not> cover_step_aborts w \<and> normalized w \<and> audio_commands_exit_zero fmt w \<longrightarrow>
        (\<not> audio_exists w \<or> audio_size w < 1024 \<longrightarrow>
           app_return (convert_ebook_to_audio w inp tmp base voice fmt)
             = Inl Audio_Missing_Or_Too_Small)
        \<and> (audio_exists w \<and> 1024 \<le> audio_size w \<longrightarrow>
           app_return (convert_ebook_to_audio w inp tmp base voice fmt)
             = Inr (path_join tmp (base @ ''.'' @ fmt))))"
proof (intro conjI impI)
  assume small: "\<not> audio_exists w \<or> audio_size w < 1024"
  show "\<exists>e. app_return (convert_ebook_to_audio w inp tmp base voice fmt) = Inl e"
  proof (cases "app_return (convert_ebook_to_audio w inp tmp base voice fmt)")
    case (Inl e)
    then show ?thesis by blast
  next
    case (Inr path)
    from success_reached_steps[OF this] have "app_return (convert_steps w inp tmp base voice fmt) = Inr path"
      by blast
    from steps_success[OF this] small show ?thesis by auto
  qed
next
  assume a: "accepted w \<and> \<not> cover_step_aborts w \<and> normalized w \<and> audio_commands_exit_zero fmt w"
  then have acc: "accepted w" and cov: "\<not> cover_step_aborts w" and norm: "normalized w"
    and zero: "audio_commands_exit_zero fmt w" by simp_all
  have gen: "audio_result (generate_audio voice (path_join tmp (base @ ''.txt''))
          (path_join tmp (base @ ''.'' @ fmt)) fmt w) = Inr ()"
    using zero by (rule generate_audio_ok)
  note ret = steps_return_normalized[OF norm, of inp tmp base voice fmt, unfolded gen]
  note lift = reaches_steps[OF acc cov, of inp tmp base voice fmt]
  {
    assume "\<not> audio_exists w \<or> audio_size w < 1024"
    then show "app_return (convert_ebook_to_audio w inp tmp base voice fmt)
             = Inl Audio_Missing_Or_Too_Small"
      using ret lift by auto
  }
  {
    assume "audio_exists w \<and> 1024 \<le> audio_size w"
    then show "app_return (convert_ebook_to_audio w inp tmp base voice fmt)
             = Inr (path_join tmp (base @ ''.'' @ fmt))"
      using ret lift by auto
  }
qed

text \<open>
  The theorem at a world where all commands exit with status 0 and the audio file has 500
  bytes: not empty, and still rejected.
\<close>

theorem small_audio_rejected_witness:
  "accepted example_world \<and> \<not> cover_step_aborts example_world \<and> normalized example_world
   \<and> audio_commands_exit_zero ''wav'' example_world
   \<and> audio_exists example_world \<and> audio_size example_world = 500
   \<and> app_return (convert_ebook_to_audio example_world ''/up/book.epub'' ''/tmp/e'' ''book''
        ''en'' ''wav'') = Inl Audio_Missing_Or_Too_Small"
  using small_audio_rejected[of example_world "''/up/book.epub''" "''/tmp/e''"
      "''book''" "''en''" "''wav''"] example_world_facts
  by (simp add: example_world_def)

text \<open>
  Claim C7. In the piped strategy both processes are started, the encoder is waited for
  (\<^verbatim>\<open>communicate\<close>) and the synthesizer is waited for (\<^verbatim>\<open>wait\<close>) before any exit status
  is looked at. A non-zero status of the encoder raises an error that carries the
  encoder's captured diagnostic stream; otherwise a non-zero status of the synthesizer
  raises one that carries the synthesizer's. In a request that reaches the synthesis
  (accepted, the cover step did not abort, the text was produced) the handler returns
  that error in place of the audio path, after exactly those actions; and the function
  returns an audio path for the formats mp3 and ogg only when both processes exited with
  status 0.
\<close>

theorem piped_failures_surface:
  "pipe_actions (run_piped cmd_speak cmd_encoder (Pipe_Ran p))
     = [Popen Speak cmd_speak, Popen Encoder cmd_encoder, Close_Stdout Speak,
        Communicate Encoder, Read_Stderr Speak, Wait Speak, Close_Stderr Speak]
   \<and> (encoder_returncode p \<noteq> 0 \<longrightarrow>
        pipe_result (run_piped cmd_speak cmd_encoder (Pipe_Ran p))
          = Inl (CalledProcessError (encoder_returncode p) cmd_encoder
                   (Some (encoder_stdout p)) (Some (encoder_stderr p))))
   \<and> (encoder_returncode p = 0 \<and> speak_returncode p \<noteq> 0 \<longrightarrow>
        pipe_result (run_piped cmd_speak cmd_encoder (Pipe_Ran p))
          = Inl (CalledProcessError (speak_returncode p) cmd_speak None (Some (speak_stderr p))))
   \<and> (pipe_result (run_piped cmd_speak cmd_encoder outcome) = Inr () \<longrightarrow>
        (\<exists>q. outcome = Pipe_Ran q \<and> speak_returncode q = 0 \<and> encoder_returncode q = 0))
   \<and> (accepted w \<and> \<not> cover_step_aborts w \<and> normalized w \<and> (fmt = ''mp3'' \<or> fmt = ''ogg'')
       \<and> espeak_pipe w = Pipe_Ran p
       \<and> (speak_returncode p \<noteq> 0 \<or> encoder_returncode p \<noteq> 0) \<longrightarrow>
        (\<exists>rc cmd out err.
           app_return (convert_ebook_to_audio w inp tmp base voice fmt)
             = Inl (Audio_Generation_Failed (CalledProcessError rc cmd out err))
           \<and> rc \<noteq> 0
           \<and> ((rc, err) = (encoder_returncode p, Some (encoder_stderr p))
                \<or> (rc, err) = (speak_returncode p, Some (speak_stderr p))))
        \<and> app_actions (convert_ebook_to_audio w inp tmp base voice fmt)
            = pipe_actions (run_piped
                [''espeak-ng'', ''-v'', voice, ''-f'', path_join tmp (base @ ''.txt''), ''--stdout'']
                (if fmt = ''mp3'' then [''lame'', ''-'', path_join tmp (base @ ''.'' @ fmt)]
                 else [''oggenc'', ''-o'', path_join tmp (base @ ''.'' @ fmt), ''-''])
                (Pipe_Ran p)))
   \<and> ((fmt = ''mp3'' \<or> fmt = ''ogg'')
       \<and> app_return (convert_ebook_to_audio w inp tmp base voice fmt) = Inr path \<longrightarrow>
        (\<exists>q. espeak_pipe w = Pipe_Ran q \<and> speak_returncode q = 0 \<and> encoder_returncode q = 0))"
proof (intro conjI impI)
  show "pipe_actions (run_piped cmd_speak cmd_encoder (Pipe_Ran p))
     = [Popen Speak cmd_speak, Popen Encoder cmd_encoder, Close_Stdout Speak,
        Communicate Encoder, Read_Stderr Speak, Wait Speak, Close_Stderr Speak]"
    using run_piped_ran by blast
next
  assume "encoder_returncode p \<noteq> 0"
  then show "pipe_result (run_piped cmd_speak cmd_encoder (Pipe_Ran p))
          = Inl (CalledProcessError (encoder_returncode p) cmd_encoder
                   (Some (encoder_stdout p)) (Some (encoder_stderr p)))"
    by (simp add: run_piped_ran)
next
  assume "encoder_returncode p = 0 \<and> speak_returncode p \<noteq> 0"
  then show "pipe_result (run_piped cmd_speak cmd_encoder (Pipe_Ran p))
          = Inl (CalledProcessError (speak_returncode p) cmd_speak None (Some (speak_stderr p)))"
    by (simp add: run_piped_ran)
next
  assume "pipe_result (run_piped cmd_speak cmd_encoder outcome) = Inr ()"
  then show "\<exists>q. outcome = Pipe_Ran q \<and> speak_returncode q = 0 \<and> encoder_returncode q = 0"
    by (rule run_piped_success)
next
  assume a: "accepted w \<and> \<not> cover_step_aborts w \<and> normalized w \<and> (fmt = ''mp3'' \<or> fmt = ''ogg'')
       \<and> espeak_pipe w = Pipe_Ran p
       \<and> (speak_returncode p \<noteq> 0 \<or> encoder_returncode p \<noteq> 0)"
  then have acc: "accepted w" and cov: "\<not> cover_step_aborts w" and norm: "normalized w"
    and f: "fmt = ''mp3'' \<or> fmt = ''ogg''"
    and ran: "espeak_pipe w = Pipe_Ran p"
    and bad: "speak_returncode p \<noteq> 0 \<or> encoder_returncode p \<noteq> 0" by simp_all
  from generate_audio_piped[OF f, of voice "path_join tmp (base @ ''.txt'')"
      "path_join tmp (base @ ''.'' @ fmt)" w]
  obtain cs ce where
    res: "audio_result (generate_audio voice (path_join tmp (base @ ''.txt''))
            (path_join tmp (base @ ''.'' @ fmt)) fmt w)
          = pipe_result (run_piped cs ce (espeak_pipe w))"
    by blast
  note lift = reaches_steps[OF acc cov, of inp tmp base voice fmt]
  note ret = steps_return_normalized[OF norm, of inp tmp base voice fmt, unfolded res ran]
  show "\<exists>rc cmd out err.
           app_return (convert_ebook_to_audio w inp tmp base voice fmt)
             = Inl (Audio_Generation_Failed (CalledProcessError rc cmd out err))
           \<and> rc \<noteq> 0
           \<and> ((rc, err) = (encoder_returncode p, Some (encoder_stderr p))
                \<or> (rc, err) = (speak_returncode p, Some (speak_stderr p)))"
  proof (cases "encoder_returncode p \<noteq> 0")
    case True
    then have "app_return (convert_ebook_to_audio w inp tmp base voice fmt)
        = Inl (Audio_Generation_Failed (CalledProcessError (encoder_returncode p) ce
                 (Some (encoder_stdout p)) (Some (encoder_stderr p))))"
      using lift by (simp add: ret run_piped_ran audio_error_def)
    then show ?thesis using True by blast
  next
    case False
    then have s: "speak_returncode p \<noteq> 0" using bad by blast
    then have "app_return (convert_ebook_to_audio w inp tmp base voice fmt)
        = Inl (Audio_Generation_Failed (CalledProcessError (speak_returncode p) cs
                 None (Some (speak_stderr p))))"
      using False lift by (simp add: ret run_piped_ran audio_error_def)
    then show ?thesis using s by blast
  qed
  have "convert_to_txt [''ebook-convert'', inp, path_join tmp (base @ ''.txt''),
          ''--enable-heuristics''] w = Inr ()"
    using norm by (simp only: convert_to_txt_ok)
  then have "app_actions (convert_steps w inp tmp base voice fmt)
      = audio_actions (generate_audio voice (path_join tmp (base @ ''.txt''))
            (path_join tmp (base @ ''.'' @ fmt)) fmt w)"
    by (simp add: convert_steps_def Let_def)
  also have "\<dots> = pipe_actions (run_piped
                [''espeak-ng'', ''-v'', voice, ''-f'', path_join tmp (base @ ''.txt''), ''--stdout'']
                (if fmt = ''mp3'' then [''lame'', ''-'', path_join tmp (base @ ''.'' @ fmt)]
                 else [''oggenc'', ''-o'', path_join tmp (base @ ''.'' @ fmt), ''-''])
                (Pipe_Ran p))"
    using f ran by (auto simp: generate_audio_def Let_def)
  finally show "app_actions (convert_ebook_to_audio w inp tmp base voice fmt)
            = pipe_actions (run_piped
                [''espeak-ng'', ''-v'', voice, ''-f'', path_join tmp (base @ ''.txt''), ''--stdout'']
                (if fmt = ''mp3'' then [''lame'', ''-'', path_join tmp (base @ ''.'' @ fmt)]
                 else [''oggenc'', ''-o'', path_join tmp (base @ ''.'' @ fmt), ''-''])
                (Pipe_Ran p))"
    using lift by simp
next
  assume a: "(fmt = ''mp3'' \<or> fmt = ''ogg'')
       \<and> app_return (convert_ebook_to_audio w inp tmp base voice fmt) = Inr path"
  then have f: "fmt = ''mp3'' \<or> fmt = ''ogg''"
    and ok0: "app_return (convert_ebook_to_audio w inp tmp base voice fmt) = Inr path"
    by simp_all
  from success_reached_steps[OF ok0]
  have ok: "app_return (convert_steps w inp tmp base voice fmt) = Inr path" by blast
  from steps_success[OF ok] have norm: "normalized w" by blast
  from generate_audio_piped[OF f, of voice "path_join tmp (base @ ''.txt'')"
      "path_join tmp (base @ ''.'' @ fmt)" w]
  obtain cs ce where
    res: "audio_result (generate_audio voice (path_join tmp (base @ ''.txt''))
            (path_join tmp (base @ ''.'' @ fmt)) fmt w)
          = pipe_result (run_piped cs ce (espeak_pipe w))"
    by blast
  note ret = steps_return_normalized[OF norm, of inp tmp base voice fmt, unfolded res]
  have "pipe_result (run_piped cs ce (espeak_pipe w)) = Inr ()"
    using ok by (cases "pipe_result (run_piped cs ce (espeak_pipe w))") (simp_all add: ret)
  then show "\<exists>q. espeak_pipe w = Pipe_Ran q \<and> speak_returncode q = 0 \<and> encoder_returncode q = 0"
    by (rule run_piped_success)
qed
text \<open>
  The theorem at a world whose encoder exits with status 1: the request for mp3 returns
  the error carrying the encoder's diagnostic stream.
\<close>

theorem piped_failures_surface_witness:
  "accepted example_world \<and> \<not> cover_step_aborts example_world \<and> normalized example_world
   \<and> (\<exists>p. espeak_pipe example_world = Pipe_Ran p \<and> encoder_returncode p \<noteq> 0
          \<and> encoder_stderr p = ''lame: unsupported audio format'')
   \<and> (\<exists>rc cmd out.
         app_return (convert_ebook_to_audio example_world ''/up/book.epub'' ''/tmp/e'' ''book''
           ''en'' ''mp3'')
         = Inl (Audio_Generation_Failed
                  (CalledProcessError rc cmd out (Some ''lame: unsupported audio format''))))"
proof -
  let ?p = "\<lparr>speak_returncode = 0, speak_stderr = [], encoder_returncode = 1,
             encoder_stdout = [], encoder_stderr = ''lame: unsupported audio format''\<rparr>"
  have ran: "espeak_pipe example_world = Pipe_Ran ?p" by (simp add: example_world_def)
  have hyp: "accepted example_world \<and> \<not> cover_step_aborts example_world
      \<and> normalized example_world
      \<and> (''mp3'' = ''mp3'' \<or> ''mp3'' = ''ogg'') \<and> espeak_pipe example_world = Pipe_Ran ?p
      \<and> (speak_returncode ?p \<noteq> 0 \<or> encoder_returncode ?p \<noteq> 0)"
    using example_world_facts(1,2,3) ran by simp
  have "\<exists>rc cmd out err.
           app_return (convert_ebook_to_audio example_world ''/up/book.epub'' ''/tmp/e'' ''book''
             ''en'' ''mp3'')
             = Inl (Audio_Generation_Failed (CalledProcessError rc cmd out err))
           \<and> rc \<noteq> 0
           \<and> ((rc, err) = (encoder_returncode ?p, Some (encoder_stderr ?p))
                \<or> (rc, err) = (speak_returncode ?p, Some (speak_stderr ?p)))"
    using piped_failures_surface[of "[]" "[]" ?p "Pipe_Ran ?p" example_world "''mp3''"
        "''/up/book.epub''" "''/tmp/e''" "''book''" "''en''" "[]"] hyp
    by blast
  then have "\<exists>rc cmd out.
         app_return (convert_ebook_to_audio example_world ''/up/book.epub'' ''/tmp/e'' ''book''
           ''en'' ''mp3'')
         = Inl (Audio_Generation_Failed
                  (CalledProcessError rc cmd out (Some ''lame: unsupported audio format'')))"
    by auto
  then show ?thesis using example_world_facts(1,2,3) ran by auto
qed

lemma audio_commands_not_convert:
  "c \<in> set (audio_commands (generate_audio voice txt_path audio_path fmt w)) \<Longrightarrow>
     hd c \<noteq> ''ebook-convert''"
  by (auto simp: generate_audio_def Let_def run_piped_def
      split: if_splits pipe_outcome.splits)

lemma steps_one_converter_call:
  "filter (\<lambda>c. hd c = ''ebook-convert'') (app_commands (convert_steps w inp tmp base voice fmt))
     = [[''ebook-convert'', inp, path_join tmp (base @ ''.txt''), ''--enable-heuristics'']]"
proof (cases "normalized w")
  case False
  then show ?thesis using steps_not_normalized[OF False, of inp tmp base voice fmt] by simp
next
  case True
  have "filter (\<lambda>c. hd c = ''ebook-convert'')
          (audio_commands (generate_audio voice (path_join tmp (base @ ''.txt''))
                             (path_join tmp (base @ ''.'' @ fmt)) fmt w)) = []"
    using audio_commands_not_convert[of _ voice _ _ fmt w] by (simp add: filter_empty_conv)
  then show ?thesis by (simp add: steps_commands_normalized[OF True])
qed

lemma one_converter_call:
  assumes "accepted w" "\<not> cover_step_aborts w"
  shows "filter (\<lambda>c. hd c = ''ebook-convert'')
           (app_commands (convert_ebook_to_audio w inp tmp base voice fmt))
         = [[''ebook-convert'', inp, path_join tmp (base @ ''.txt''), ''--enable-heuristics'']]"
  using reaches_steps[OF assms, of inp tmp base voice fmt]
    steps_one_converter_call[of w inp tmp base voice fmt]
  by simp

lemma at_most_one_converter_call:
  "length (filter (\<lambda>c. hd c = ''ebook-convert'')
     (app_commands (convert_ebook_to_audio w inp tmp base voice fmt))) \<le> 1"
proof (cases "accepted w")
  case False
  then show ?thesis using not_accepted[OF False, of inp tmp base voice fmt] by simp
next
  case True
  show ?thesis
  proof (cases "cover_step_aborts w")
    case True
    then show ?thesis using cover_abort[OF \<open>accepted w\<close> True, of inp tmp base voice fmt] by simp
  next
    case False
    then show ?thesis using one_converter_call[OF \<open>accepted w\<close> False, of inp tmp base voice fmt]
      by simp
  qed
qed

lemma normalized_iff:
  "normalized w = ((\<exists>out err. ebook_convert w = Exited 0 out err) \<and> txt_exists w \<and> 0 < txt_size w)"
  by (auto simp: normalized_def exited_zero_def split: run_outcome.splits)

lemma convert_to_epub_exited:
  "convert_outcome cw = Exited rc out err \<Longrightarrow>
     epub_return (convert_to_epub cw inp outp) = Inr (rc = 0)"
  by (simp add: convert_to_epub_def subprocess_run_def Let_def)

lemma convert_to_epub_commands:
  "epub_commands (convert_to_epub cw inp outp) = [[''ebook-convert'', inp, outp]]"
  by (auto simp: convert_to_epub_def Let_def split: sum.splits py_exception.splits)

text \<open>
  Claim C8, as amended. Single-file variant, for a request that reaches the converter
  (accepted, the cover step did not abort): the converter is run exactly once; when it
  does not exit with status 0 or its output file is missing or empty, the request ends
  with an error and no synthesis command is run; and, the case set aside in which the
  converter exits non-zero with a diagnostic output (there the handler itself raises),
  the error is a conversion error exactly when the converter does not exit with status 0
  (a non-zero status, or it cannot be started) or its output file is missing or empty. No
  request runs the converter more than once. Chaptered variant: \<^verbatim>\<open>convert_to_epub\<close> runs
  the converter once and reports failure exactly when the exit status is not 0, without
  looking at the output file; on failure the segmentation is skipped, on success the
  output file is read, and a missing file makes the reader raise.
\<close>

theorem normalization_failure:
  "(accepted w \<and> \<not> cover_step_aborts w \<longrightarrow>
      (\<not> convert_handler_slips w \<longrightarrow>
         is_conversion_error (app_return (convert_ebook_to_audio w inp tmp base voice fmt))
           = (\<not> normalized w))
      \<and> (\<not> normalized w \<longrightarrow>
           (\<exists>e. app_return (convert_ebook_to_audio w inp tmp base voice fmt) = Inl e)
           \<and> app_commands (convert_ebook_to_audio w inp tmp base voice fmt)
             = (if embed_cover w
                then [[''ebook-meta'', inp, ''--get-cover'', path_join tmp ''cover.jpg'']] else [])
               @ [[''ebook-convert'', inp, path_join tmp (base @ ''.txt''),
                   ''--enable-heuristics'']])
      \<and> filter (\<lambda>c. hd c = ''ebook-convert'')
           (app_commands (convert_ebook_to_audio w inp tmp base voice fmt))
         = [[''ebook-convert'', inp, path_join tmp (base @ ''.txt''), ''--enable-heuristics'']])
   \<and> length (filter (\<lambda>c. hd c = ''ebook-convert'')
        (app_commands (convert_ebook_to_audio w inp tmp base voice fmt))) \<le> 1
   \<and> normalized w
       = ((\<exists>out err. ebook_convert w = Exited 0 out err) \<and> txt_exists w \<and> 0 < txt_size w)
   \<and> epub_commands (convert_to_epub cw inp outp) = [[''ebook-convert'', inp, outp]]
   \<and> (convert_outcome cw = Exited rc out err \<longrightarrow>
        epub_return (convert_to_epub cw inp outp) = Inr (rc = 0)
        \<and> convert_and_segment cw inp outp fs
            = (if rc = 0 then
                 (case read_epub cw outp of
                    Inl e \<Rightarrow> Inl e
                  | Inr items \<Rightarrow> Inr (Some (save_chapters_as_text fs items)))
               else Inr None))"
proof (intro conjI impI)
  show "length (filter (\<lambda>c. hd c = ''ebook-convert'')
        (app_commands (convert_ebook_to_audio w inp tmp base voice fmt))) \<le> 1"
    by (rule at_most_one_converter_call)
  show "normalized w
       = ((\<exists>out err. ebook_convert w = Exited 0 out err) \<and> txt_exists w \<and> 0 < txt_size w)"
    by (rule normalized_iff)
  show "epub_commands (convert_to_epub cw inp outp) = [[''ebook-convert'', inp, outp]]"
    by (rule convert_to_epub_commands)
next
  assume a: "accepted w \<and> \<not> cover_step_aborts w"
  then have acc: "accepted w" and cov: "\<not> cover_step_aborts w" by simp_all
  note lift = reaches_steps[OF acc cov, of inp tmp base voice fmt]
  show "filter (\<lambda>c. hd c = ''ebook-convert'')
           (app_commands (convert_ebook_to_audio w inp tmp base voice fmt))
         = [[''ebook-convert'', inp, path_join tmp (base @ ''.txt''), ''--enable-heuristics'']]"
    using acc cov by (rule one_converter_call)
  {
    assume ns: "\<not> convert_handler_slips w"
    show "is_conversion_error (app_return (convert_ebook_to_audio w inp tmp base voice fmt))
           = (\<not> normalized w)"
    proof (cases "normalized w")
      case True
      then show ?thesis
        using steps_normalized_no_conversion_error[OF True, of inp tmp base voice fmt] lift
        by simp
    next
      case False
      then show ?thesis
        using steps_not_normalized[OF False, of inp tmp base voice fmt] ns lift by simp
    qed
  }
  {
    assume nn: "\<not> normalized w"
    note st = steps_not_normalized[OF nn, of inp tmp base voice fmt]
    show "\<exists>e. app_return (convert_ebook_to_audio w inp tmp base voice fmt) = Inl e"
      using st lift by simp
    show "app_commands (convert_ebook_to_audio w inp tmp base voice fmt)
             = (if embed_cover w
                then [[''ebook-meta'', inp, ''--get-cover'', path_join tmp ''cover.jpg'']] else [])
               @ [[''ebook-convert'', inp, path_join tmp (base @ ''.txt''),
                   ''--enable-heuristics'']]"
      using st lift by simp
  }
next
  assume e: "convert_outcome cw = Exited rc out err"
  show r: "epub_return (convert_to_epub cw inp outp) = Inr (rc = 0)"
    using e by (rule convert_to_epub_exited)
  show "convert_and_segment cw inp outp fs
            = (if rc = 0 then
                 (case read_epub cw outp of
                    Inl e \<Rightarrow> Inl e
                  | Inr items \<Rightarrow> Inr (Some (save_chapters_as_text fs items)))
               else Inr None)"
    by (simp add: convert_and_segment_def r)
qed

text \<open>
  The theorem at a world whose converter exits with status 0 and leaves an empty text
  file, and at a chaptered conversion that exits with status 1.
\<close>

theorem normalization_failure_witness:
  "accepted (example_world\<lparr>txt_size := 0\<rparr>) \<and> \<not> cover_step_aborts (example_world\<lparr>txt_size := 0\<rparr>)
   \<and> \<not> convert_handler_slips (example_world\<lparr>txt_size := 0\<rparr>)
   \<and> \<not> normalized (example_world\<lparr>txt_size := 0\<rparr>)
   \<and> is_conversion_error (app_return (convert_ebook_to_audio (example_world\<lparr>txt_size := 0\<rparr>)
        ''/up/book.epub'' ''/tmp/e'' ''book'' ''en'' ''wav''))
   \<and> app_commands (convert_ebook_to_audio (example_world\<lparr>txt_size := 0\<rparr>)
        ''/up/book.epub'' ''/tmp/e'' ''book'' ''en'' ''wav'')
      = [[''ebook-meta'', ''/up/book.epub'', ''--get-cover'', ''/tmp/e/cover.jpg''],
         [''ebook-convert'', ''/up/book.epub'', ''/tmp/e/book.txt'', ''--enable-heuristics'']]
   \<and> epub_return (convert_to_epub
        \<lparr>convert_outcome = Exited 1 [] [], output_exists = False, output_size = 0,
         epub_parsed = Inr []\<rparr>
        ''/up/book.epub'' ''./Working_files/temp.epub'') = Inr False"
proof -
  let ?w = "example_world\<lparr>txt_size := 0\<rparr>"
  let ?cw = "\<lparr>convert_outcome = Exited 1 [] [], output_exists = False, output_size = 0,
         epub_parsed = Inr []\<rparr>"
  have acc: "accepted ?w" by (simp add: example_world_def accepted_def)
  have cov: "\<not> cover_step_aborts ?w"
    by (simp add: example_world_def cover_step_aborts_def failed_with_stderr_def)
  have ns: "\<not> convert_handler_slips ?w"
    by (simp add: example_world_def convert_handler_slips_def failed_with_stderr_def)
  have nn: "\<not> normalized ?w" by (simp add: example_world_def normalized_def)
  have emb: "embed_cover ?w" by (simp add: example_world_def)
  have out: "convert_outcome ?cw = Exited 1 [] []" by simp
  have p: "path_join ''/tmp/e'' (''book'' @ ''.txt'') = ''/tmp/e/book.txt''"
    "path_join ''/tmp/e'' ''cover.jpg'' = ''/tmp/e/cover.jpg''"
    by (simp_all add: path_join_def startswith_def endswith_def)
  note th = normalization_failure[of ?w "''/up/book.epub''" "''/tmp/e''" "''book''" "''en''"
      "''wav''" ?cw "''./Working_files/temp.epub''" 1 "[]" "[]" Map.empty]
  have a: "is_conversion_error (app_return (convert_ebook_to_audio ?w
        ''/up/book.epub'' ''/tmp/e'' ''book'' ''en'' ''wav''))"
    using th acc cov ns nn by blast
  have "app_commands (convert_ebook_to_audio ?w
        ''/up/book.epub'' ''/tmp/e'' ''book'' ''en'' ''wav'')
      = (if embed_cover ?w
         then [[''ebook-meta'', ''/up/book.epub'', ''--get-cover'', path_join ''/tmp/e'' ''cover.jpg'']]
         else [])
        @ [[''ebook-convert'', ''/up/book.epub'', path_join ''/tmp/e'' (''book'' @ ''.txt''),
            ''--enable-heuristics'']]"
    using th acc cov nn by blast
  then have b: "app_commands (convert_ebook_to_audio ?w
        ''/up/book.epub'' ''/tmp/e'' ''book'' ''en'' ''wav'')
      = [[''ebook-meta'', ''/up/book.epub'', ''--get-cover'', ''/tmp/e/cover.jpg''],
         [''ebook-convert'', ''/up/book.epub'', ''/tmp/e/book.txt'', ''--enable-heuristics'']]"
    unfolding p using emb by simp
  have c: "epub_return (convert_to_epub ?cw ''/up/book.epub'' ''./Working_files/temp.epub'')
        = Inr False"
    using th out by simp
  show ?thesis using acc cov ns nn a b c by blast
qed

text \<open>
  Claim C8 as stated fails in the chaptered variant: when the converter exits with status
  0 and its output file is missing, \<^verbatim>\<open>convert_to_epub\<close> reports success and prints nothing;
  the request ends with the \<^verbatim>\<open>FileNotFoundError\<close> of the EPUB reader, which no handler
  turns into a conversion error.
\<close>

theorem missing_epub_not_detected_counterexample:
  "epub_return (convert_to_epub
      \<lparr>convert_outcome = Exited 0 [] [], output_exists = False, output_size = 0,
       epub_parsed = Inr []\<rparr>
      ''/up/book.mobi'' ''./Working_files/temp.epub'') = Inr True
   \<and> epub_printed (convert_to_epub
      \<lparr>convert_outcome = Exited 0 [] [], output_exists = False, output_size = 0,
       epub_parsed = Inr []\<rparr>
      ''/up/book.mobi'' ''./Working_files/temp.epub'') = []
   \<and> convert_and_segment
      \<lparr>convert_outcome = Exited 0 [] [], output_exists = False, output_size = 0,
       epub_parsed = Inr []\<rparr>
      ''/up/book.mobi'' ''./Working_files/temp.epub'' Map.empty
      = Inl (FileNotFoundError ''./Working_files/temp.epub'')"
  by (simp add: convert_to_epub_def convert_and_segment_def subprocess_run_def Let_def
      read_epub_def)

end
